theory Spec2Isabelle
  imports Complex_Main
begin

section \<open>The flying game of \<^verbatim>\<open>app/page.tsx\<close>\<close>

text \<open>
  The component \<^verbatim>\<open>FlyingGame\<close> keeps three React state values (\<^verbatim>\<open>gameState\<close>,
  \<^verbatim>\<open>score\<close>, \<^verbatim>\<open>highScore\<close>) and four mutable refs (\<^verbatim>\<open>playerRef\<close>, \<^verbatim>\<open>pipesRef\<close>,
  \<^verbatim>\<open>bulletsRef\<close>, \<^verbatim>\<open>frameCountRef\<close>). One call of \<^verbatim>\<open>gameLoop\<close> is one tick.

  JavaScript numbers are doubles. A finite double is a rational number, so the state
  holds rationals; the two counters that only ever hold natural numbers (\<^verbatim>\<open>score\<close>,
  \<^verbatim>\<open>frameCount\<close>) are \<^typ>\<open>nat\<close>. The tick is given twice: \<open>gameLoop\<close> computes
  every sum and product exactly, and \<open>gameLoopWith fl\<close> passes the result of every
  arithmetic operation through the rounding \<open>fl\<close>; \<open>roundDouble\<close> is the rounding of
  double arithmetic, and \<open>gameLoop\<close> is \<open>gameLoopWith\<close> without rounding
  (\<open>gameLoopWith_id\<close>).
  Record fields carry the name of their interface as a prefix where the source's name
  is a single letter (\<^verbatim>\<open>pipe.x\<close> is \<open>pipe_x\<close>), because a field is a constant here.
\<close>

subsection \<open>Game constants\<close>

definition GAME_WIDTH :: rat where "GAME_WIDTH = 400"
definition GAME_HEIGHT :: rat where "GAME_HEIGHT = 600"
definition GRAVITY :: rat where "GRAVITY = 0.4"
definition JUMP_STRENGTH :: rat where "JUMP_STRENGTH = - 8"
definition BULLET_SPEED :: rat where "BULLET_SPEED = 8"
definition PIPE_SPEED :: rat where "PIPE_SPEED = 2"
definition PIPE_SPAWN_RATE :: nat where "PIPE_SPAWN_RATE = 150"

subsection \<open>Entities and world state\<close>

record Pipe =
  pipe_x :: rat
  topHeight :: rat
  gap :: rat
  passed :: bool

record Bullet =
  bullet_x :: rat
  bullet_y :: rat
  active :: bool

record Player =
  player_x :: rat
  player_y :: rat
  velocity :: rat
  rotation :: rat

datatype GameState = Start | Playing | GameOver

text \<open>The object literals \<^verbatim>\<open>{ x, y, w, h }\<close> handed to \<^verbatim>\<open>checkCollision\<close>.\<close>

record Rect =
  rect_x :: rat
  rect_y :: rat
  rect_w :: rat
  rect_h :: rat

record World =
  gameState :: GameState
  score :: nat
  highScore :: nat
  player :: Player
  pipes :: "Pipe list"
  bullets :: "Bullet list"
  frameCount :: nat

definition initialPlayer :: Player where
  "initialPlayer = \<lparr>player_x = 80, player_y = 250, velocity = 0, rotation = 0\<rparr>"

definition initialWorld :: World where
  "initialWorld = \<lparr>gameState = Start, score = 0, highScore = 0, player = initialPlayer,
     pipes = [], bullets = [], frameCount = 0\<rparr>"

subsection \<open>Input commands\<close>

definition resetGame :: "World \<Rightarrow> World" where
  "resetGame w = w\<lparr>player := \<lparr>player_x = 80, player_y = 250, velocity = 0, rotation = 0\<rparr>,
     pipes := [], bullets := [], frameCount := 0, score := 0\<rparr>"

definition jump :: "World \<Rightarrow> World" where
  "jump w =
     (if gameState w = Start then
        w\<lparr>gameState := Playing, player := (player w)\<lparr>velocity := JUMP_STRENGTH\<rparr>\<rparr>
      else if gameState w = Playing then
        w\<lparr>player := (player w)\<lparr>velocity := JUMP_STRENGTH\<rparr>\<rparr>
      else if gameState w = GameOver then
        (resetGame w)\<lparr>gameState := Start\<rparr>
      else w)"

definition shoot :: "World \<Rightarrow> World" where
  "shoot w =
     (if gameState w = Playing then
        w\<lparr>bullets := bullets w @
          [\<lparr>bullet_x = player_x (player w) + 20, bullet_y = player_y (player w) + 10,
            active = True\<rparr>]\<rparr>
      else w)"

subsection \<open>Collision geometry\<close>

definition checkCollision :: "Rect \<Rightarrow> Rect \<Rightarrow> bool" where
  "checkCollision a b \<longleftrightarrow>
     rect_x a < rect_x b + rect_w b \<and> rect_x a + rect_w a > rect_x b \<and>
     rect_y a < rect_y b + rect_h b \<and> rect_y a + rect_h a > rect_y b"

definition playerHitbox :: "Player \<Rightarrow> Rect" where
  "playerHitbox p = \<lparr>rect_x = player_x p - 15, rect_y = player_y p - 15, rect_w = 30, rect_h = 30\<rparr>"

definition bulletHitbox :: "Bullet \<Rightarrow> Rect" where
  "bulletHitbox b = \<lparr>rect_x = bullet_x b - 5, rect_y = bullet_y b - 3, rect_w = 10, rect_h = 6\<rparr>"

definition topPipe :: "Pipe \<Rightarrow> Rect" where
  "topPipe pipe = \<lparr>rect_x = pipe_x pipe, rect_y = 0, rect_w = 50, rect_h = topHeight pipe\<rparr>"

definition bottomPipe :: "Pipe \<Rightarrow> Rect" where
  "bottomPipe pipe =
     \<lparr>rect_x = pipe_x pipe, rect_y = topHeight pipe + gap pipe, rect_w = 50, rect_h = GAME_HEIGHT\<rparr>"

text \<open>The two conditions \<^verbatim>\<open>checkCollision(.., topPipe) || checkCollision(.., bottomPipe)\<close>.\<close>

definition playerHitsPipe :: "Player \<Rightarrow> Pipe \<Rightarrow> bool" where
  "playerHitsPipe p pipe \<longleftrightarrow>
     checkCollision (playerHitbox p) (topPipe pipe) \<or> checkCollision (playerHitbox p) (bottomPipe pipe)"

definition bulletHitsPipe :: "Bullet \<Rightarrow> Pipe \<Rightarrow> bool" where
  "bulletHitsPipe b pipe \<longleftrightarrow>
     checkCollision (bulletHitbox b) (topPipe pipe) \<or> checkCollision (bulletHitbox b) (bottomPipe pipe)"

subsection \<open>One tick\<close>

text \<open>
  Inside one call of \<^verbatim>\<open>gameLoop\<close> the names \<^verbatim>\<open>gameState\<close>, \<^verbatim>\<open>score\<close> and
  \<^verbatim>\<open>highScore\<close> are the values captured when the effect was set up; the setters only
  queue updates, which React applies before the next tick. Below, \<open>c\<close> is the captured
  world (every read of the three values goes to it) and \<open>s\<close> is the world with the
  queued updates applied so far. \<^verbatim>\<open>setScore(s => s + n)\<close> adds to the queued score;
  \<^verbatim>\<open>setHighScore(score)\<close> stores the captured score.
\<close>

definition setGameOver :: "World \<Rightarrow> World \<Rightarrow> World" where
  "setGameOver c s =
     (let s1 = s\<lparr>gameState := GameOver\<rparr>
      in if score c > highScore c then s1\<lparr>highScore := score c\<rparr> else s1)"

text \<open>Gravity, position and rotation (lines 134 to 139).\<close>

definition updatePlayer :: "Player \<Rightarrow> Player" where
  "updatePlayer p0 =
     (let p1 = p0\<lparr>velocity := velocity p0 + GRAVITY\<rparr>;
          p2 = p1\<lparr>player_y := player_y p1 + velocity p1\<rparr>
      in p2\<lparr>rotation := min (max (velocity p2 * 3) (- 30)) 45\<rparr>)"

text \<open>The floor and ceiling check (line 142).\<close>

definition outOfBounds :: "Player \<Rightarrow> bool" where
  "outOfBounds p \<longleftrightarrow> player_y p > GAME_HEIGHT - 40 \<or> player_y p < 0"

text \<open>
  Spawning (lines 150 to 161). \<open>random\<close> is the value \<^verbatim>\<open>Math.random()\<close> returns,
  a number in \<open>[0, 1)\<close>; \<open>fc\<close> is the frame counter after its increment.
\<close>

definition newPipe :: "rat \<Rightarrow> Pipe" where
  "newPipe random =
     (let minHeight = 50;
          maxHeight = GAME_HEIGHT - 200;
          th = random * (maxHeight - minHeight) + minHeight
      in \<lparr>pipe_x = GAME_WIDTH, topHeight = th, gap = 120, passed = False\<rparr>)"

definition spawnPipes :: "nat \<Rightarrow> rat \<Rightarrow> Pipe list \<Rightarrow> Pipe list" where
  "spawnPipes fc random ps =
     (if fc mod PIPE_SPAWN_RATE = 0 then ps @ [newPipe random] else ps)"

text \<open>
  The callback of the pipe filter (lines 164 to 186), for one pipe: the pipe as it is
  left in the array, whether the filter keeps it, and the queued state.
\<close>

definition movePipe :: "Pipe \<Rightarrow> Pipe" where
  "movePipe pipe = pipe\<lparr>pipe_x := pipe_x pipe - PIPE_SPEED\<rparr>"

text \<open>The condition of the score counting (line 180), on the pipe already moved.\<close>

definition justPassed :: "Player \<Rightarrow> Pipe \<Rightarrow> bool" where
  "justPassed p pipe1 \<longleftrightarrow> \<not> passed pipe1 \<and> pipe_x pipe1 + 50 < player_x p"

definition updatePipe :: "World \<Rightarrow> Player \<Rightarrow> Pipe \<Rightarrow> World \<Rightarrow> (Pipe \<times> bool) \<times> World" where
  "updatePipe c p pipe s =
     (let pipe1 = movePipe pipe;
          s1 = (if playerHitsPipe p pipe1 then setGameOver c s else s)
      in if justPassed p pipe1
         then ((pipe1\<lparr>passed := True\<rparr>, pipe_x pipe1 > - 60), s1\<lparr>score := score s1 + 1\<rparr>)
         else ((pipe1, pipe_x pipe1 > - 60), s1))"

fun updatePipes :: "World \<Rightarrow> Player \<Rightarrow> Pipe list \<Rightarrow> World \<Rightarrow> Pipe list \<times> World" where
  "updatePipes c p [] s = ([], s)"
| "updatePipes c p (pipe # rest) s =
     (case updatePipe c p pipe s of
        ((pipe', keep), s1) \<Rightarrow>
          (case updatePipes c p rest s1 of
             (rest', s2) \<Rightarrow> (if keep then pipe' # rest' else rest', s2)))"

text \<open>
  The inner filter of the bullet loop (lines 194 to 205): every pipe the bullet
  intersects is dropped, sets \<^verbatim>\<open>hit\<close> and queues two points.
\<close>

fun hitPipes :: "Bullet \<Rightarrow> Pipe list \<Rightarrow> bool \<times> World \<Rightarrow> Pipe list \<times> bool \<times> World" where
  "hitPipes b [] (hit, s) = ([], hit, s)"
| "hitPipes b (pipe # rest) (hit, s) =
     (if bulletHitsPipe b pipe then hitPipes b rest (True, s\<lparr>score := score s + 2\<rparr>)
      else (case hitPipes b rest (hit, s) of (rest', hs) \<Rightarrow> (pipe # rest', hs)))"

definition moveBullet :: "Bullet \<Rightarrow> Bullet" where
  "moveBullet bullet = bullet\<lparr>bullet_x := bullet_x bullet + BULLET_SPEED\<rparr>"

text \<open>The callback of the bullet filter (lines 189 to 208), for one bullet.\<close>

definition updateBullet :: "Bullet \<Rightarrow> Pipe list \<times> World \<Rightarrow> (Bullet \<times> bool) \<times> Pipe list \<times> World" where
  "updateBullet bullet st =
     (case st of (ps, s) \<Rightarrow>
        (let b1 = moveBullet bullet
         in case hitPipes b1 ps (False, s) of
              (ps', hit, s') \<Rightarrow> ((b1, bullet_x b1 < GAME_WIDTH \<and> \<not> hit), ps', s')))"

fun updateBullets :: "Bullet list \<Rightarrow> Pipe list \<times> World \<Rightarrow> Bullet list \<times> Pipe list \<times> World" where
  "updateBullets [] st = ([], st)"
| "updateBullets (bullet # rest) st =
     (case updateBullet bullet st of
        ((b1, keep), st1) \<Rightarrow>
          (case updateBullets rest st1 of
             (rest', st2) \<Rightarrow> (if keep then b1 # rest' else rest', st2)))"

text \<open>
  \<^verbatim>\<open>gameLoop\<close> without the drawing. There is no early return after
  \<^verbatim>\<open>setGameState('gameOver')\<close>: the tick runs to its end.
\<close>

definition gameLoop :: "World \<Rightarrow> rat \<Rightarrow> World" where
  "gameLoop c random =
     (if gameState c \<noteq> Playing then c
      else
        (let p = updatePlayer (player c);
             s1 = (if outOfBounds p then setGameOver c c else c);
             fc = frameCount c + 1;
             ps1 = spawnPipes fc random (pipes c)
         in case updatePipes c p ps1 s1 of
              (ps2, s2) \<Rightarrow>
                (case updateBullets (bullets c) (ps2, s2) of
                   (bs, ps3, s3) \<Rightarrow>
                     s3\<lparr>player := p, frameCount := fc, pipes := ps3, bullets := bs\<rparr>)))"

subsection \<open>Sessions\<close>

datatype Event = Tick rat | Jump | Shoot

fun step :: "World \<Rightarrow> Event \<Rightarrow> World" where
  "step w (Tick random) = gameLoop w random"
| "step w Jump = jump w"
| "step w Shoot = shoot w"

definition run :: "World \<Rightarrow> Event list \<Rightarrow> World" where
  "run w es = foldl step w es"

subsection \<open>The tick in double arithmetic\<close>

text \<open>
  \<open>roundDouble x\<close> is the double nearest to \<open>x\<close> (binary64: 53 significant bits, ties
  to the even significand; below 2 to the power -1022 the spacing of the smallest
  normal binade). \<open>exponentOf n x\<close> is the exponent \<open>e\<close> of a positive \<open>x\<close>, the power
  of two with \<open>2 powi e \<le> x < 2 powi (e + 1)\<close>, found in at most \<open>n\<close> steps; 1100 steps
  cover every exponent a double has. Where the result reaches 2 to the power 1024
  in magnitude the double is \<^verbatim>\<open>Infinity\<close>, which no rational stands for: the
  function is meant below that bound.
\<close>

fun exponentOf :: "nat \<Rightarrow> rat \<Rightarrow> int" where
  "exponentOf 0 x = 0"
| "exponentOf (Suc n) x =
     (if 2 \<le> x then exponentOf n (x / 2) + 1
      else if x < 1 then exponentOf n (x * 2) - 1
      else 0)"

definition roundHalfEven :: "rat \<Rightarrow> int" where
  "roundHalfEven q =
     (let n = \<lfloor>q\<rfloor>; r = q - of_int n
      in if r < 1 / 2 then n else if 1 / 2 < r then n + 1 else if even n then n else n + 1)"

definition roundDouble :: "rat \<Rightarrow> rat" where
  "roundDouble x =
     (if x = 0 then 0
      else
        (let e = max (exponentOf 1100 \<bar>x\<bar>) (- 1022);
             ulp = 2 powi (e - 52)
         in of_int (roundHalfEven (x / ulp)) * ulp))"

text \<open>
  The tick once more, with the result of every addition, subtraction and
  multiplication of the source passed through \<open>fl\<close>, in the source's order. The
  literal \<^verbatim>\<open>0.4\<close> is the double \<open>fl GRAVITY\<close>; the other literals are whole numbers.
  Comparisons, \<^verbatim>\<open>Math.min\<close> and \<^verbatim>\<open>Math.max\<close> do not round.
\<close>

definition checkCollisionWith :: "(rat \<Rightarrow> rat) \<Rightarrow> Rect \<Rightarrow> Rect \<Rightarrow> bool" where
  "checkCollisionWith fl a b \<longleftrightarrow>
     rect_x a < fl (rect_x b + rect_w b) \<and> fl (rect_x a + rect_w a) > rect_x b \<and>
     rect_y a < fl (rect_y b + rect_h b) \<and> fl (rect_y a + rect_h a) > rect_y b"

definition playerHitboxWith :: "(rat \<Rightarrow> rat) \<Rightarrow> Player \<Rightarrow> Rect" where
  "playerHitboxWith fl p =
     \<lparr>rect_x = fl (player_x p - 15), rect_y = fl (player_y p - 15), rect_w = 30, rect_h = 30\<rparr>"

definition bulletHitboxWith :: "(rat \<Rightarrow> rat) \<Rightarrow> Bullet \<Rightarrow> Rect" where
  "bulletHitboxWith fl b =
     \<lparr>rect_x = fl (bullet_x b - 5), rect_y = fl (bullet_y b - 3), rect_w = 10, rect_h = 6\<rparr>"

definition bottomPipeWith :: "(rat \<Rightarrow> rat) \<Rightarrow> Pipe \<Rightarrow> Rect" where
  "bottomPipeWith fl pipe =
     \<lparr>rect_x = pipe_x pipe, rect_y = fl (topHeight pipe + gap pipe), rect_w = 50, rect_h = GAME_HEIGHT\<rparr>"

definition playerHitsPipeWith :: "(rat \<Rightarrow> rat) \<Rightarrow> Player \<Rightarrow> Pipe \<Rightarrow> bool" where
  "playerHitsPipeWith fl p pipe \<longleftrightarrow>
     checkCollisionWith fl (playerHitboxWith fl p) (topPipe pipe) \<or>
     checkCollisionWith fl (playerHitboxWith fl p) (bottomPipeWith fl pipe)"

definition bulletHitsPipeWith :: "(rat \<Rightarrow> rat) \<Rightarrow> Bullet \<Rightarrow> Pipe \<Rightarrow> bool" where
  "bulletHitsPipeWith fl b pipe \<longleftrightarrow>
     checkCollisionWith fl (bulletHitboxWith fl b) (topPipe pipe) \<or>
     checkCollisionWith fl (bulletHitboxWith fl b) (bottomPipeWith fl pipe)"

definition updatePlayerWith :: "(rat \<Rightarrow> rat) \<Rightarrow> Player \<Rightarrow> Player" where
  "updatePlayerWith fl p0 =
     (let p1 = p0\<lparr>velocity := fl (velocity p0 + fl GRAVITY)\<rparr>;
          p2 = p1\<lparr>player_y := fl (player_y p1 + velocity p1)\<rparr>
      in p2\<lparr>rotation := min (max (fl (velocity p2 * 3)) (- 30)) 45\<rparr>)"

definition outOfBoundsWith :: "(rat \<Rightarrow> rat) \<Rightarrow> Player \<Rightarrow> bool" where
  "outOfBoundsWith fl p \<longleftrightarrow> player_y p > fl (GAME_HEIGHT - 40) \<or> player_y p < 0"

definition newPipeWith :: "(rat \<Rightarrow> rat) \<Rightarrow> rat \<Rightarrow> Pipe" where
  "newPipeWith fl random =
     (let minHeight = 50;
          maxHeight = fl (GAME_HEIGHT - 200);
          th = fl (fl (random * fl (maxHeight - minHeight)) + minHeight)
      in \<lparr>pipe_x = GAME_WIDTH, topHeight = th, gap = 120, passed = False\<rparr>)"

definition spawnPipesWith :: "(rat \<Rightarrow> rat) \<Rightarrow> nat \<Rightarrow> rat \<Rightarrow> Pipe list \<Rightarrow> Pipe list" where
  "spawnPipesWith fl fc random ps =
     (if fc mod PIPE_SPAWN_RATE = 0 then ps @ [newPipeWith fl random] else ps)"

definition movePipeWith :: "(rat \<Rightarrow> rat) \<Rightarrow> Pipe \<Rightarrow> Pipe" where
  "movePipeWith fl pipe = pipe\<lparr>pipe_x := fl (pipe_x pipe - PIPE_SPEED)\<rparr>"

definition justPassedWith :: "(rat \<Rightarrow> rat) \<Rightarrow> Player \<Rightarrow> Pipe \<Rightarrow> bool" where
  "justPassedWith fl p pipe1 \<longleftrightarrow> \<not> passed pipe1 \<and> fl (pipe_x pipe1 + 50) < player_x p"

definition updatePipeWith ::
  "(rat \<Rightarrow> rat) \<Rightarrow> World \<Rightarrow> Player \<Rightarrow> Pipe \<Rightarrow> World \<Rightarrow> (Pipe \<times> bool) \<times> World" where
  "updatePipeWith fl c p pipe s =
     (let pipe1 = movePipeWith fl pipe;
          s1 = (if playerHitsPipeWith fl p pipe1 then setGameOver c s else s)
      in if justPassedWith fl p pipe1
         then ((pipe1\<lparr>passed := True\<rparr>, pipe_x pipe1 > - 60), s1\<lparr>score := score s1 + 1\<rparr>)
         else ((pipe1, pipe_x pipe1 > - 60), s1))"

fun updatePipesWith ::
  "(rat \<Rightarrow> rat) \<Rightarrow> World \<Rightarrow> Player \<Rightarrow> Pipe list \<Rightarrow> World \<Rightarrow> Pipe list \<times> World" where
  "updatePipesWith fl c p [] s = ([], s)"
| "updatePipesWith fl c p (pipe # rest) s =
     (case updatePipeWith fl c p pipe s of
        ((pipe', keep), s1) \<Rightarrow>
          (case updatePipesWith fl c p rest s1 of
             (rest', s2) \<Rightarrow> (if keep then pipe' # rest' else rest', s2)))"

fun hitPipesWith ::
  "(rat \<Rightarrow> rat) \<Rightarrow> Bullet \<Rightarrow> Pipe list \<Rightarrow> bool \<times> World \<Rightarrow> Pipe list \<times> bool \<times> World" where
  "hitPipesWith fl b [] (hit, s) = ([], hit, s)"
| "hitPipesWith fl b (pipe # rest) (hit, s) =
     (if bulletHitsPipeWith fl b pipe then hitPipesWith fl b rest (True, s\<lparr>score := score s + 2\<rparr>)
      else (case hitPipesWith fl b rest (hit, s) of (rest', hs) \<Rightarrow> (pipe # rest', hs)))"

definition moveBulletWith :: "(rat \<Rightarrow> rat) \<Rightarrow> Bullet \<Rightarrow> Bullet" where
  "moveBulletWith fl bullet = bullet\<lparr>bullet_x := fl (bullet_x bullet + BULLET_SPEED)\<rparr>"

definition updateBulletWith ::
  "(rat \<Rightarrow> rat) \<Rightarrow> Bullet \<Rightarrow> Pipe list \<times> World \<Rightarrow> (Bullet \<times> bool) \<times> Pipe list \<times> World" where
  "updateBulletWith fl bullet st =
     (case st of (ps, s) \<Rightarrow>
        (let b1 = moveBulletWith fl bullet
         in case hitPipesWith fl b1 ps (False, s) of
              (ps', hit, s') \<Rightarrow> ((b1, bullet_x b1 < GAME_WIDTH \<and> \<not> hit), ps', s')))"

fun updateBulletsWith ::
  "(rat \<Rightarrow> rat) \<Rightarrow> Bullet list \<Rightarrow> Pipe list \<times> World \<Rightarrow> Bullet list \<times> Pipe list \<times> World" where
  "updateBulletsWith fl [] st = ([], st)"
| "updateBulletsWith fl (bullet # rest) st =
     (case updateBulletWith fl bullet st of
        ((b1, keep), st1) \<Rightarrow>
          (case updateBulletsWith fl rest st1 of
             (rest', st2) \<Rightarrow> (if keep then b1 # rest' else rest', st2)))"

definition gameLoopWith :: "(rat \<Rightarrow> rat) \<Rightarrow> World \<Rightarrow> rat \<Rightarrow> World" where
  "gameLoopWith fl c random =
     (if gameState c \<noteq> Playing then c
      else
        (let p = updatePlayerWith fl (player c);
             s1 = (if outOfBoundsWith fl p then setGameOver c c else c);
             fc = frameCount c + 1;
             ps1 = spawnPipesWith fl fc random (pipes c)
         in case updatePipesWith fl c p ps1 s1 of
              (ps2, s2) \<Rightarrow>
                (case updateBulletsWith fl (bullets c) (ps2, s2) of
                   (bs, ps3, s3) \<Rightarrow>
                     s3\<lparr>player := p, frameCount := fc, pipes := ps3, bullets := bs\<rparr>)))"

subsection \<open>Intermediate values of a tick\<close>

text \<open>
  Names for values the tick passes through, used in the statements below: the pipe
  object as the pipe callback leaves it, the pipe array after the spawn step, and
  the pipe array after the pipe filter (before the bullets are processed).
\<close>

definition agePipe :: "Player \<Rightarrow> Pipe \<Rightarrow> Pipe" where
  "agePipe p pipe =
     (let pipe1 = movePipe pipe in if justPassed p pipe1 then pipe1\<lparr>passed := True\<rparr> else pipe1)"

definition spawned :: "World \<Rightarrow> rat \<Rightarrow> Pipe list" where
  "spawned w random = spawnPipes (frameCount w + 1) random (pipes w)"

definition scrolled :: "World \<Rightarrow> rat \<Rightarrow> Pipe list" where
  "scrolled w random =
     filter (\<lambda>pipe. - 60 < pipe_x pipe) (map (agePipe (updatePlayer (player w))) (spawned w random))"

text \<open>The pipe array at the moment the bullet with index \<open>i\<close> is processed.\<close>

definition pipesAt :: "World \<Rightarrow> rat \<Rightarrow> nat \<Rightarrow> Pipe list" where
  "pipesAt w random i =
     filter (\<lambda>pipe. \<forall>b\<in>set (take i (bullets w)). \<not> bulletHitsPipe (moveBullet b) pipe)
       (scrolled w random)"

subsection \<open>Example worlds\<close>

text \<open>Concrete worlds at which the statements below are evaluated.\<close>

definition overWorld :: World where
  "overWorld = \<lparr>gameState = GameOver, score = 3, highScore = 7,
     player = \<lparr>player_x = 80, player_y = 570, velocity = 12, rotation = 36\<rparr>,
     pipes = [\<lparr>pipe_x = 210, topHeight = 180, gap = 120, passed = False\<rparr>],
     bullets = [\<lparr>bullet_x = 140, bullet_y = 400, active = True\<rparr>],
     frameCount = 245\<rparr>"

definition spawnWorld :: World where
  "spawnWorld = \<lparr>gameState = Playing, score = 0, highScore = 0,
     player = \<lparr>player_x = 80, player_y = 250, velocity = - 8, rotation = - 24\<rparr>,
     pipes = [], bullets = [], frameCount = 149\<rparr>"

definition floorWorld :: World where
  "floorWorld = \<lparr>gameState = Playing, score = 0, highScore = 0,
     player = \<lparr>player_x = 80, player_y = 2798 / 5, velocity = 0, rotation = 0\<rparr>,
     pipes = [], bullets = [], frameCount = 10\<rparr>"

definition ceilingWorld :: World where
  "ceilingWorld = \<lparr>gameState = Playing, score = 0, highScore = 0,
     player = \<lparr>player_x = 80, player_y = 38 / 5, velocity = - 8, rotation = - 24\<rparr>,
     pipes = [], bullets = [], frameCount = 10\<rparr>"

definition passWorld :: World where
  "passWorld = \<lparr>gameState = Playing, score = 0, highScore = 0,
     player = \<lparr>player_x = 80, player_y = 250, velocity = 0, rotation = 0\<rparr>,
     pipes = [\<lparr>pipe_x = 30, topHeight = 200, gap = 120, passed = False\<rparr>],
     bullets = [], frameCount = 334\<rparr>"


definition crashWorld :: World where
  "crashWorld = \<lparr>gameState = Playing, score = 0, highScore = 0,
     player = \<lparr>player_x = 80, player_y = 100, velocity = 0, rotation = 0\<rparr>,
     pipes = [\<lparr>pipe_x = 90, topHeight = 200, gap = 120, passed = False\<rparr>,
              \<lparr>pipe_x = 390, topHeight = 200, gap = 120, passed = False\<rparr>],
     bullets = [\<lparr>bullet_x = 380, bullet_y = 100, active = True\<rparr>], frameCount = 304\<rparr>"

definition offScreenWorld :: World where
  "offScreenWorld = \<lparr>gameState = Playing, score = 1, highScore = 0,
     player = \<lparr>player_x = 80, player_y = 250, velocity = 0, rotation = 0\<rparr>,
     pipes = [\<lparr>pipe_x = - 54, topHeight = 200, gap = 120, passed = True\<rparr>],
     bullets = [], frameCount = 376\<rparr>"

definition removalWorld :: World where
  "removalWorld = \<lparr>gameState = Playing, score = 1, highScore = 0,
     player = \<lparr>player_x = 80, player_y = 250, velocity = 0, rotation = 0\<rparr>,
     pipes = [\<lparr>pipe_x = - 58, topHeight = 200, gap = 120, passed = True\<rparr>,
              \<lparr>pipe_x = 242, topHeight = 200, gap = 120, passed = False\<rparr>],
     bullets = [\<lparr>bullet_x = 396, bullet_y = 250, active = True\<rparr>,
                \<lparr>bullet_x = 236, bullet_y = 100, active = True\<rparr>,
                \<lparr>bullet_x = 108, bullet_y = 250, active = True\<rparr>],
     frameCount = 378\<rparr>"

text \<open>The player's position and velocity are the doubles \<^verbatim>\<open>0.7\<close> and \<^verbatim>\<open>-1.1\<close>.\<close>

definition roundingWorld :: World where
  "roundingWorld = \<lparr>gameState = Playing, score = 0, highScore = 0,
     player = \<lparr>player_x = 80, player_y = 3152519739159347 / 4503599627370496,
       velocity = - 2476979795053773 / 2251799813685248, rotation = - 30\<rparr>,
     pipes = [], bullets = [], frameCount = 69\<rparr>"

definition passedHitWorld :: World where
  "passedHitWorld = \<lparr>gameState = Playing, score = 0, highScore = 0,
     player = \<lparr>player_x = 80, player_y = 250, velocity = 0, rotation = 0\<rparr>,
     pipes = [\<lparr>pipe_x = 30, topHeight = 200, gap = 120, passed = False\<rparr>],
     bullets = [\<lparr>bullet_x = 10, bullet_y = 100, active = True\<rparr>], frameCount = 334\<rparr>"

text \<open>
  A session from the initial world: the player keeps itself in the air for 117 ticks
  (a jump every 39 ticks), shoots once after tick 113, then jumps before every tick
  and so climbs towards the top edge. After 149 ticks the bullet is about to reach the
  right edge, where tick 150 spawns the first pipe.
\<close>

definition fatalPrefix :: "Event list" where
  "fatalPrefix =
     Jump # replicate 39 (Tick 0) @ Jump # replicate 39 (Tick 0) @ Jump # replicate 35 (Tick 0) @
     Shoot # replicate 4 (Tick 0) @ concat (replicate 32 [Jump, Tick 0]) @ [Jump]"

subsection \<open>Notions used in the statements\<close>

text \<open>
  The spec's words "scrolled fully off-screen to the left", read on what is drawn for
  a pipe: the widest part is the cap, from \<open>x - 5\<close> to \<open>x + 55\<close> (lines 246 and 254),
  so nothing of the pipe is on the canvas once \<open>x + 55 < 0\<close>.
\<close>

definition offScreenLeft :: "Pipe \<Rightarrow> bool" where
  "offScreenLeft pipe \<longleftrightarrow> pipe_x pipe + 55 < 0"

text \<open>
  What every session keeps true: the player stays at \<open>x = 80\<close>, every bullet is at
  \<open>x = 100\<close> or further right, and a pipe whose \<^verbatim>\<open>passed\<close> flag is set has its
  right edge left of the player.
\<close>

definition behindPlayer :: "World \<Rightarrow> bool" where
  "behindPlayer w \<longleftrightarrow>
     player_x (player w) = 80 \<and>
     (\<forall>b\<in>set (bullets w). 100 \<le> bullet_x b) \<and>
     (\<forall>pipe\<in>set (pipes w). passed pipe \<longrightarrow> pipe_x pipe + 50 < 80)"

text \<open>
  Pipes in array order are at least 300 apart, and no pipe is further right than the
  frame counter since the last spawn allows.
\<close>

definition spacedPipes :: "Pipe list \<Rightarrow> bool" where
  "spacedPipes ps \<longleftrightarrow> sorted_wrt (\<lambda>p q. pipe_x p + 300 \<le> pipe_x q) ps"

definition spaced :: "World \<Rightarrow> bool" where
  "spaced w \<longleftrightarrow>
     spacedPipes (pipes w) \<and>
     (\<forall>pipe\<in>set (pipes w). pipe_x pipe + 2 * of_nat (frameCount w mod 150) \<le> 398)"

text \<open>
  The bullet step as the spec words it: a bullet that intersects a pipe removes the
  first such pipe in array order and no other, is removed itself, and scores two
  points; a bullet that intersects none stays while it is inside the field.
  \<open>gameLoopFirstHit\<close> is the tick with this bullet step in place of the source's.
\<close>

fun removeFirstHit :: "Bullet \<Rightarrow> Pipe list \<Rightarrow> Pipe list" where
  "removeFirstHit b [] = []"
| "removeFirstHit b (pipe # rest) =
     (if bulletHitsPipe b pipe then rest else pipe # removeFirstHit b rest)"

definition firstHitBullet :: "Bullet \<Rightarrow> Pipe list \<times> World \<Rightarrow> (Bullet \<times> bool) \<times> Pipe list \<times> World" where
  "firstHitBullet bullet st =
     (case st of (ps, s) \<Rightarrow>
        (let b1 = moveBullet bullet
         in if \<exists>pipe\<in>set ps. bulletHitsPipe b1 pipe
            then ((b1, False), removeFirstHit b1 ps, s\<lparr>score := score s + 2\<rparr>)
            else ((b1, bullet_x b1 < GAME_WIDTH), ps, s)))"

fun firstHitBullets :: "Bullet list \<Rightarrow> Pipe list \<times> World \<Rightarrow> Bullet list \<times> Pipe list \<times> World" where
  "firstHitBullets [] st = ([], st)"
| "firstHitBullets (bullet # rest) st =
     (case firstHitBullet bullet st of
        ((b1, keep), st1) \<Rightarrow>
          (case firstHitBullets rest st1 of
             (rest', st2) \<Rightarrow> (if keep then b1 # rest' else rest', st2)))"

definition gameLoopFirstHit :: "World \<Rightarrow> rat \<Rightarrow> World" where
  "gameLoopFirstHit c random =
     (if gameState c \<noteq> Playing then c
      else
        (let p = updatePlayer (player c);
             s1 = (if outOfBounds p then setGameOver c c else c);
             fc = frameCount c + 1;
             ps1 = spawnPipes fc random (pipes c)
         in case updatePipes c p ps1 s1 of
              (ps2, s2) \<Rightarrow>
                (case firstHitBullets (bullets c) (ps2, s2) of
                   (bs, ps3, s3) \<Rightarrow>
                     s3\<lparr>player := p, frameCount := fc, pipes := ps3, bullets := bs\<rparr>)))"

section \<open>The loops as list functions\<close>

lemmas constants =
  GAME_WIDTH_def GAME_HEIGHT_def GRAVITY_def JUMP_STRENGTH_def BULLET_SPEED_def
  PIPE_SPEED_def PIPE_SPAWN_RATE_def

lemmas evals = gameLoop_def updatePlayer_def outOfBounds_def spawnPipes_def newPipe_def
  updatePipe_def movePipe_def justPassed_def playerHitsPipe_def bulletHitsPipe_def
  checkCollision_def playerHitbox_def bulletHitbox_def topPipe_def bottomPipe_def
  setGameOver_def updateBullet_def moveBullet_def agePipe_def spawned_def scrolled_def
  jump_def shoot_def resetGame_def initialWorld_def initialPlayer_def run_def constants Let_def

subsection \<open>The pipe filter\<close>

lemma setGameOver_fields [simp]:
  "gameState (setGameOver c s) = GameOver"
  "score (setGameOver c s) = score s"
  "highScore (setGameOver c s) = (if score c > highScore c then score c else highScore s)"
  "player (setGameOver c s) = player s"
  "pipes (setGameOver c s) = pipes s"
  "bullets (setGameOver c s) = bullets s"
  "frameCount (setGameOver c s) = frameCount s"
  by (simp_all add: setGameOver_def Let_def)

lemma updatePipe_pipe: "fst (fst (updatePipe c p pipe s)) = agePipe p pipe"
  by (simp add: updatePipe_def agePipe_def Let_def)

lemma updatePipe_keep: "snd (fst (updatePipe c p pipe s)) \<longleftrightarrow> - 60 < pipe_x (agePipe p pipe)"
  by (simp add: updatePipe_def agePipe_def Let_def)

lemma updatePipe_score:
  "score (snd (updatePipe c p pipe s)) = score s + (if justPassed p (movePipe pipe) then 1 else 0)"
  by (simp add: updatePipe_def Let_def)

lemma updatePipe_gameState:
  "gameState (snd (updatePipe c p pipe s)) =
     (if playerHitsPipe p (movePipe pipe) then GameOver else gameState s)"
  by (simp add: updatePipe_def Let_def)

lemma updatePipe_highScore:
  "highScore (snd (updatePipe c p pipe s)) =
     (if playerHitsPipe p (movePipe pipe) \<and> score c > highScore c then score c else highScore s)"
  by (simp add: updatePipe_def Let_def)

lemma updatePipes_pipes:
  "fst (updatePipes c p ps s) = filter (\<lambda>pipe. - 60 < pipe_x pipe) (map (agePipe p) ps)"
proof (induction ps arbitrary: s)
  case Nil
  show ?case by simp
next
  case (Cons pipe rest)
  obtain pipe' keep s1 where u: "updatePipe c p pipe s = ((pipe', keep), s1)"
    by (metis surj_pair)
  obtain rest' s2 where r: "updatePipes c p rest s1 = (rest', s2)"
    by (metis surj_pair)
  from u have "pipe' = agePipe p pipe" "keep \<longleftrightarrow> - 60 < pipe_x (agePipe p pipe)"
    using updatePipe_pipe [of c p pipe s] updatePipe_keep [of c p pipe s] by simp_all
  moreover from r Cons.IH [of s1] have "rest' = filter (\<lambda>pipe. - 60 < pipe_x pipe) (map (agePipe p) rest)"
    by simp
  ultimately show ?case using u r by simp
qed

lemma updatePipes_score:
  "score (snd (updatePipes c p ps s)) = score s + length (filter (\<lambda>pipe. justPassed p (movePipe pipe)) ps)"
proof (induction ps arbitrary: s)
  case Nil
  show ?case by simp
next
  case (Cons pipe rest)
  obtain pipe' keep s1 where u: "updatePipe c p pipe s = ((pipe', keep), s1)"
    by (metis surj_pair)
  obtain rest' s2 where r: "updatePipes c p rest s1 = (rest', s2)"
    by (metis surj_pair)
  from u have "score s1 = score s + (if justPassed p (movePipe pipe) then 1 else 0)"
    using updatePipe_score [of c p pipe s] by simp
  moreover from r Cons.IH [of s1]
  have "score s2 = score s1 + length (filter (\<lambda>pipe. justPassed p (movePipe pipe)) rest)"
    by simp
  ultimately show ?case using u r by simp
qed

lemma updatePipes_gameState:
  "gameState (snd (updatePipes c p ps s)) =
     (if \<exists>pipe\<in>set ps. playerHitsPipe p (movePipe pipe) then GameOver else gameState s)"
proof (induction ps arbitrary: s)
  case Nil
  show ?case by simp
next
  case (Cons pipe rest)
  obtain pipe' keep s1 where u: "updatePipe c p pipe s = ((pipe', keep), s1)"
    by (metis surj_pair)
  obtain rest' s2 where r: "updatePipes c p rest s1 = (rest', s2)"
    by (metis surj_pair)
  from u have "gameState s1 = (if playerHitsPipe p (movePipe pipe) then GameOver else gameState s)"
    using updatePipe_gameState [of c p pipe s] by simp
  moreover from r Cons.IH [of s1]
  have "gameState s2 = (if \<exists>pipe\<in>set rest. playerHitsPipe p (movePipe pipe) then GameOver else gameState s1)"
    by simp
  ultimately show ?case using u r by simp
qed

lemma updatePipes_highScore:
  "highScore (snd (updatePipes c p ps s)) =
     (if (\<exists>pipe\<in>set ps. playerHitsPipe p (movePipe pipe)) \<and> score c > highScore c
      then score c else highScore s)"
proof (induction ps arbitrary: s)
  case Nil
  show ?case by simp
next
  case (Cons pipe rest)
  obtain pipe' keep s1 where u: "updatePipe c p pipe s = ((pipe', keep), s1)"
    by (metis surj_pair)
  obtain rest' s2 where r: "updatePipes c p rest s1 = (rest', s2)"
    by (metis surj_pair)
  from u have "highScore s1 =
     (if playerHitsPipe p (movePipe pipe) \<and> score c > highScore c then score c else highScore s)"
    using updatePipe_highScore [of c p pipe s] by simp
  moreover from r Cons.IH [of s1]
  have "highScore s2 = (if (\<exists>pipe\<in>set rest. playerHitsPipe p (movePipe pipe)) \<and> score c > highScore c
      then score c else highScore s1)"
    by simp
  ultimately show ?case using u r by auto
qed

subsection \<open>The bullet filter\<close>

lemma hitPipes_pipes:
  "fst (hitPipes b ps (hit, s)) = filter (\<lambda>pipe. \<not> bulletHitsPipe b pipe) ps"
  by (induction ps arbitrary: hit s) (simp_all add: case_prod_beta)

lemma hitPipes_hit:
  "fst (snd (hitPipes b ps (hit, s))) \<longleftrightarrow> hit \<or> (\<exists>pipe\<in>set ps. bulletHitsPipe b pipe)"
  by (induction ps arbitrary: hit s) (simp_all add: case_prod_beta)

lemma hitPipes_score:
  "score (snd (snd (hitPipes b ps (hit, s)))) = score s + 2 * length (filter (bulletHitsPipe b) ps)"
  by (induction ps arbitrary: hit s) (simp_all add: case_prod_beta)

lemma hitPipes_gameState: "gameState (snd (snd (hitPipes b ps (hit, s)))) = gameState s"
  by (induction ps arbitrary: hit s) (simp_all add: case_prod_beta)

lemma hitPipes_highScore: "highScore (snd (snd (hitPipes b ps (hit, s)))) = highScore s"
  by (induction ps arbitrary: hit s) (simp_all add: case_prod_beta)

lemma updateBullet_bullet: "fst (fst (updateBullet b (ps, s))) = moveBullet b"
  by (simp add: updateBullet_def Let_def case_prod_beta)

lemma updateBullet_keep:
  "snd (fst (updateBullet b (ps, s))) \<longleftrightarrow>
     bullet_x (moveBullet b) < GAME_WIDTH \<and> (\<forall>pipe\<in>set ps. \<not> bulletHitsPipe (moveBullet b) pipe)"
  using hitPipes_hit [of "moveBullet b" ps False s]
  by (simp add: updateBullet_def Let_def case_prod_beta)

lemma updateBullet_pipes:
  "fst (snd (updateBullet b (ps, s))) = filter (\<lambda>pipe. \<not> bulletHitsPipe (moveBullet b) pipe) ps"
  using hitPipes_pipes [of "moveBullet b" ps False s]
  by (simp add: updateBullet_def Let_def case_prod_beta)

lemma updateBullet_score:
  "score (snd (snd (updateBullet b (ps, s)))) =
     score s + 2 * length (filter (bulletHitsPipe (moveBullet b)) ps)"
  using hitPipes_score [of "moveBullet b" ps False s]
  by (simp add: updateBullet_def Let_def case_prod_beta)

lemma updateBullet_gameState: "gameState (snd (snd (updateBullet b (ps, s)))) = gameState s"
  using hitPipes_gameState [of "moveBullet b" ps False s]
  by (simp add: updateBullet_def Let_def case_prod_beta)

lemma updateBullet_highScore: "highScore (snd (snd (updateBullet b (ps, s)))) = highScore s"
  using hitPipes_highScore [of "moveBullet b" ps False s]
  by (simp add: updateBullet_def Let_def case_prod_beta)

lemma hitPipes_eq:
  "hitPipes b ps (hit, s) =
     (filter (\<lambda>pipe. \<not> bulletHitsPipe b pipe) ps,
      hit \<or> (\<exists>pipe\<in>set ps. bulletHitsPipe b pipe),
      s\<lparr>score := score s + 2 * length (filter (bulletHitsPipe b) ps)\<rparr>)"
  by (induction ps arbitrary: hit s) simp_all

lemma updateBullet_eq:
  "updateBullet b (ps, s) =
     ((moveBullet b,
       bullet_x (moveBullet b) < GAME_WIDTH \<and> (\<forall>pipe\<in>set ps. \<not> bulletHitsPipe (moveBullet b) pipe)),
      filter (\<lambda>pipe. \<not> bulletHitsPipe (moveBullet b) pipe) ps,
      s\<lparr>score := score s + 2 * length (filter (bulletHitsPipe (moveBullet b)) ps)\<rparr>)"
  by (simp add: updateBullet_def hitPipes_eq Let_def)

lemma length_filter_split: "length (filter P xs) + length (filter (\<lambda>x. \<not> P x) xs) = length xs"
  by (induction xs) simp_all

lemma updateBullets_pipes:
  "fst (snd (updateBullets bs (ps, s))) =
     filter (\<lambda>pipe. \<forall>b\<in>set bs. \<not> bulletHitsPipe (moveBullet b) pipe) ps"
proof (induction bs arbitrary: ps s)
  case Nil
  show ?case by simp
next
  case (Cons b rest)
  obtain b1 keep ps1 s1 where u: "updateBullet b (ps, s) = ((b1, keep), ps1, s1)"
    by (metis surj_pair)
  obtain rest' st2 where r: "updateBullets rest (ps1, s1) = (rest', st2)"
    by (metis surj_pair)
  from u have "ps1 = filter (\<lambda>pipe. \<not> bulletHitsPipe (moveBullet b) pipe) ps"
    using updateBullet_pipes [of b ps s] by simp
  moreover from r Cons.IH [of ps1 s1]
  have "fst st2 = filter (\<lambda>pipe. \<forall>b\<in>set rest. \<not> bulletHitsPipe (moveBullet b) pipe) ps1"
    by simp
  ultimately show ?case using u r by (simp add: conj_commute)
qed

lemma updateBullets_score:
  "score (snd (snd (updateBullets bs (ps, s)))) + 2 * length (fst (snd (updateBullets bs (ps, s)))) =
     score s + 2 * length ps"
proof (induction bs arbitrary: ps s)
  case Nil
  show ?case by simp
next
  case (Cons b rest)
  obtain b1 keep ps1 s1 where u: "updateBullet b (ps, s) = ((b1, keep), ps1, s1)"
    by (metis surj_pair)
  obtain rest' st2 where r: "updateBullets rest (ps1, s1) = (rest', st2)"
    by (metis surj_pair)
  from u have "ps1 = filter (\<lambda>pipe. \<not> bulletHitsPipe (moveBullet b) pipe) ps"
    and "score s1 = score s + 2 * length (filter (bulletHitsPipe (moveBullet b)) ps)"
    using updateBullet_pipes [of b ps s] updateBullet_score [of b ps s] by simp_all
  then have "score s1 + 2 * length ps1 = score s + 2 * length ps"
    using length_filter_split [of "bulletHitsPipe (moveBullet b)" ps] by simp
  moreover from r Cons.IH [of ps1 s1]
  have "score (snd st2) + 2 * length (fst st2) = score s1 + 2 * length ps1"
    by simp
  ultimately show ?case using u r by simp
qed

lemma updateBullets_gameState: "gameState (snd (snd (updateBullets bs (ps, s)))) = gameState s"
proof (induction bs arbitrary: ps s)
  case Nil
  show ?case by simp
next
  case (Cons b rest)
  obtain b1 keep ps1 s1 where u: "updateBullet b (ps, s) = ((b1, keep), ps1, s1)"
    by (metis surj_pair)
  obtain rest' st2 where r: "updateBullets rest (ps1, s1) = (rest', st2)"
    by (metis surj_pair)
  from u have "gameState s1 = gameState s"
    using updateBullet_gameState [of b ps s] by simp
  moreover from r Cons.IH [of ps1 s1] have "gameState (snd st2) = gameState s1"
    by simp
  ultimately show ?case using u r by simp
qed

lemma updateBullets_highScore: "highScore (snd (snd (updateBullets bs (ps, s)))) = highScore s"
proof (induction bs arbitrary: ps s)
  case Nil
  show ?case by simp
next
  case (Cons b rest)
  obtain b1 keep ps1 s1 where u: "updateBullet b (ps, s) = ((b1, keep), ps1, s1)"
    by (metis surj_pair)
  obtain rest' st2 where r: "updateBullets rest (ps1, s1) = (rest', st2)"
    by (metis surj_pair)
  from u have "highScore s1 = highScore s"
    using updateBullet_highScore [of b ps s] by simp
  moreover from r Cons.IH [of ps1 s1] have "highScore (snd st2) = highScore s1"
    by simp
  ultimately show ?case using u r by simp
qed

text \<open>Bullets that stay: moved, inside the field, and touching no pipe that stays.\<close>

lemma updateBullets_kept:
  "b' \<in> set (fst (updateBullets bs (ps, s))) \<Longrightarrow>
     b' \<in> moveBullet ` set bs \<and> bullet_x b' < GAME_WIDTH \<and>
     (\<forall>pipe\<in>set (fst (snd (updateBullets bs (ps, s)))). \<not> bulletHitsPipe b' pipe)"
proof (induction bs arbitrary: ps s)
  case Nil
  then show ?case by simp
next
  case (Cons b rest)
  obtain b1 keep ps1 s1 where u: "updateBullet b (ps, s) = ((b1, keep), ps1, s1)"
    by (metis surj_pair)
  obtain rest' ps2 s2 where r: "updateBullets rest (ps1, s1) = (rest', ps2, s2)"
    by (metis surj_pair)
  from u have b1: "b1 = moveBullet b"
    and keep: "keep \<longleftrightarrow> bullet_x (moveBullet b) < GAME_WIDTH \<and> (\<forall>pipe\<in>set ps. \<not> bulletHitsPipe (moveBullet b) pipe)"
    and ps1: "ps1 = filter (\<lambda>pipe. \<not> bulletHitsPipe (moveBullet b) pipe) ps"
    using updateBullet_bullet [of b ps s] updateBullet_keep [of b ps s] updateBullet_pipes [of b ps s]
    by simp_all
  from r updateBullets_pipes [of rest ps1 s1] have sub: "set ps2 \<subseteq> set ps1"
    by auto
  from Cons.prems u r have "b' \<in> set (if keep then b1 # rest' else rest')"
    by simp
  then consider "keep" "b' = b1" | "b' \<in> set rest'"
    by (auto split: if_splits)
  then show ?case
  proof cases
    case 1
    with keep b1 ps1 sub u r show ?thesis by auto
  next
    case 2
    with r Cons.IH [of ps1 s1] u show ?thesis by auto
  qed
qed

text \<open>A bullet that is inside the field and touches none of the pipes stays.\<close>

lemma updateBullets_stays:
  "b \<in> set bs \<Longrightarrow> bullet_x (moveBullet b) < GAME_WIDTH \<Longrightarrow>
     \<forall>pipe\<in>set ps. \<not> bulletHitsPipe (moveBullet b) pipe \<Longrightarrow>
     moveBullet b \<in> set (fst (updateBullets bs (ps, s)))"
proof (induction bs arbitrary: ps s)
  case Nil
  then show ?case by simp
next
  case (Cons a rest)
  obtain b1 keep ps1 s1 where u: "updateBullet a (ps, s) = ((b1, keep), ps1, s1)"
    by (metis surj_pair)
  obtain rest' ps2 s2 where r: "updateBullets rest (ps1, s1) = (rest', ps2, s2)"
    by (metis surj_pair)
  from u have b1: "b1 = moveBullet a"
    and keep: "keep \<longleftrightarrow> bullet_x (moveBullet a) < GAME_WIDTH \<and> (\<forall>pipe\<in>set ps. \<not> bulletHitsPipe (moveBullet a) pipe)"
    and ps1: "ps1 = filter (\<lambda>pipe. \<not> bulletHitsPipe (moveBullet a) pipe) ps"
    using updateBullet_bullet [of a ps s] updateBullet_keep [of a ps s] updateBullet_pipes [of a ps s]
    by simp_all
  show ?case
  proof (cases "moveBullet b = moveBullet a")
    case True
    with Cons.prems keep b1 u r show ?thesis by simp
  next
    case False
    with Cons.prems have "b \<in> set rest" by auto
    moreover from Cons.prems ps1 have "\<forall>pipe\<in>set ps1. \<not> bulletHitsPipe (moveBullet b) pipe"
      by simp
    ultimately have "moveBullet b \<in> set (fst (updateBullets rest (ps1, s1)))"
      using Cons.IH [of ps1 s1] Cons.prems(2) by blast
    with u r show ?thesis by simp
  qed
qed

text \<open>
  The bullets that stay, by index: bullet \<open>i\<close> stays exactly when it is inside the field
  and intersects no pipe that the bullets before it have left in the array.
\<close>

lemma updateBullets_index:
  "fst (updateBullets bs (ps, s)) =
     map (\<lambda>i. moveBullet (bs ! i))
       (filter (\<lambda>i. bullet_x (moveBullet (bs ! i)) < GAME_WIDTH \<and>
           (\<forall>pipe\<in>set (filter (\<lambda>pipe. \<forall>b\<in>set (take i bs). \<not> bulletHitsPipe (moveBullet b) pipe) ps).
              \<not> bulletHitsPipe (moveBullet (bs ! i)) pipe))
         [0..<length bs])"
proof (induction bs arbitrary: ps s)
  case Nil
  show ?case by simp
next
  case (Cons b rest)
  let ?ps1 = "filter (\<lambda>pipe. \<not> bulletHitsPipe (moveBullet b) pipe) ps"
  let ?s1 = "s\<lparr>score := score s + 2 * length (filter (bulletHitsPipe (moveBullet b)) ps)\<rparr>"
  let ?keep0 = "bullet_x (moveBullet b) < GAME_WIDTH \<and> (\<forall>pipe\<in>set ps. \<not> bulletHitsPipe (moveBullet b) pipe)"
  let ?K = "\<lambda>bs ps i. bullet_x (moveBullet (bs ! i)) < GAME_WIDTH \<and>
           (\<forall>pipe\<in>set (filter (\<lambda>pipe. \<forall>b\<in>set (take i bs). \<not> bulletHitsPipe (moveBullet b) pipe) ps).
              \<not> bulletHitsPipe (moveBullet (bs ! i)) pipe)"
  have u: "updateBullet b (ps, s) = ((moveBullet b, ?keep0), ?ps1, ?s1)"
    by (rule updateBullet_eq)
  have zero: "?K (b # rest) ps 0 = ?keep0"
    by simp
  have suc: "?K (b # rest) ps (Suc i) = ?K rest ?ps1 i" for i
    by auto
  have upt: "[0..<length (b # rest)] = 0 # map Suc [0..<length rest]"
    by (simp add: upt_conv_Cons map_Suc_upt del: upt_Suc)
  have "map (\<lambda>i. moveBullet ((b # rest) ! i)) (filter (?K (b # rest) ps) [0..<length (b # rest)]) =
      (if ?keep0 then [moveBullet b] else []) @
      map (\<lambda>i. moveBullet (rest ! i)) (filter (?K rest ?ps1) [0..<length rest])"
    unfolding upt by (simp only: filter.simps zero list.map filter_map comp_def suc nth_Cons_Suc nth_Cons_0 map_map)
      (simp add: comp_def)
  moreover have "fst (updateBullets (b # rest) (ps, s)) =
      (if ?keep0 then [moveBullet b] else []) @ fst (updateBullets rest (?ps1, ?s1))"
    by (simp add: u case_prod_beta)
  ultimately show ?case using Cons.IH [of ?ps1 ?s1] by simp
qed

subsection \<open>The whole tick\<close>

lemma gameLoop_not_playing: "gameState w \<noteq> Playing \<Longrightarrow> gameLoop w random = w"
  by (simp add: gameLoop_def)

lemma gameLoop_player: "gameState w = Playing \<Longrightarrow> player (gameLoop w random) = updatePlayer (player w)"
  by (simp add: gameLoop_def Let_def case_prod_beta)

lemma gameLoop_frameCount: "gameState w = Playing \<Longrightarrow> frameCount (gameLoop w random) = frameCount w + 1"
  by (simp add: gameLoop_def Let_def case_prod_beta)

lemma gameLoop_pipes:
  "gameState w = Playing \<Longrightarrow>
     pipes (gameLoop w random) =
       filter (\<lambda>pipe. \<forall>b\<in>set (bullets w). \<not> bulletHitsPipe (moveBullet b) pipe) (scrolled w random)"
  using updateBullets_pipes [of "bullets w" "fst (updatePipes w (updatePlayer (player w)) (spawned w random)
      (if outOfBounds (updatePlayer (player w)) then setGameOver w w else w))"]
  by (simp add: gameLoop_def Let_def case_prod_beta scrolled_def spawned_def updatePipes_pipes)

lemma gameLoop_gameState:
  "gameState w = Playing \<Longrightarrow>
     gameState (gameLoop w random) =
       (if outOfBounds (updatePlayer (player w)) \<or>
           (\<exists>pipe\<in>set (spawned w random). playerHitsPipe (updatePlayer (player w)) (movePipe pipe))
        then GameOver else Playing)"
  by (simp add: gameLoop_def Let_def case_prod_beta spawned_def
      updateBullets_gameState [of _ "fst x" "snd x" for x, simplified]
      updatePipes_gameState)

lemma gameLoop_highScore:
  "gameState w = Playing \<Longrightarrow>
     highScore (gameLoop w random) =
       (if (outOfBounds (updatePlayer (player w)) \<or>
            (\<exists>pipe\<in>set (spawned w random). playerHitsPipe (updatePlayer (player w)) (movePipe pipe))) \<and>
           highScore w < score w
        then score w else highScore w)"
  by (simp add: gameLoop_def Let_def case_prod_beta spawned_def
      updateBullets_highScore [of _ "fst x" "snd x" for x, simplified]
      updatePipes_highScore)

lemma gameLoop_score:
  "gameState w = Playing \<Longrightarrow>
     score (gameLoop w random) + 2 * length (pipes (gameLoop w random)) =
       score w
       + length (filter (\<lambda>pipe. justPassed (updatePlayer (player w)) (movePipe pipe)) (spawned w random))
       + 2 * length (scrolled w random)"
  using updateBullets_score [of "bullets w" "fst (updatePipes w (updatePlayer (player w)) (spawned w random)
      (if outOfBounds (updatePlayer (player w)) then setGameOver w w else w))"
      "snd (updatePipes w (updatePlayer (player w)) (spawned w random)
      (if outOfBounds (updatePlayer (player w)) then setGameOver w w else w))"]
  by (simp add: gameLoop_def Let_def case_prod_beta scrolled_def spawned_def updatePipes_pipes
      updatePipes_score)

lemma gameLoop_bullets_kept:
  assumes "gameState w = Playing" and "b' \<in> set (bullets (gameLoop w random))"
  shows "b' \<in> moveBullet ` set (bullets w) \<and> bullet_x b' < GAME_WIDTH \<and>
     (\<forall>pipe\<in>set (pipes (gameLoop w random)). \<not> bulletHitsPipe b' pipe)"
  using assms updateBullets_kept [of b' "bullets w" "fst (updatePipes w (updatePlayer (player w)) (spawned w random)
      (if outOfBounds (updatePlayer (player w)) then setGameOver w w else w))"
      "snd (updatePipes w (updatePlayer (player w)) (spawned w random)
      (if outOfBounds (updatePlayer (player w)) then setGameOver w w else w))"]
  by (simp add: gameLoop_def Let_def case_prod_beta spawned_def)

lemma gameLoop_bullets_stay:
  assumes "gameState w = Playing" and "b \<in> set (bullets w)"
    and "bullet_x (moveBullet b) < GAME_WIDTH"
    and "\<forall>pipe\<in>set (scrolled w random). \<not> bulletHitsPipe (moveBullet b) pipe"
  shows "moveBullet b \<in> set (bullets (gameLoop w random))"
  using assms updateBullets_stays [of b "bullets w" "fst (updatePipes w (updatePlayer (player w)) (spawned w random)
      (if outOfBounds (updatePlayer (player w)) then setGameOver w w else w))"
      "snd (updatePipes w (updatePlayer (player w)) (spawned w random)
      (if outOfBounds (updatePlayer (player w)) then setGameOver w w else w))"]
  by (simp add: gameLoop_def Let_def case_prod_beta spawned_def scrolled_def updatePipes_pipes)

lemma gameLoop_bullets:
  assumes "gameState w = Playing"
  shows "bullets (gameLoop w random) =
     map (\<lambda>i. moveBullet (bullets w ! i))
       (filter (\<lambda>i. bullet_x (moveBullet (bullets w ! i)) < GAME_WIDTH \<and>
           (\<forall>pipe\<in>set (pipesAt w random i). \<not> bulletHitsPipe (moveBullet (bullets w ! i)) pipe))
         [0..<length (bullets w)])"
  using assms updateBullets_index [of "bullets w" "fst (updatePipes w (updatePlayer (player w)) (spawned w random)
      (if outOfBounds (updatePlayer (player w)) then setGameOver w w else w))"
      "snd (updatePipes w (updatePlayer (player w)) (spawned w random)
      (if outOfBounds (updatePlayer (player w)) then setGameOver w w else w))"]
  by (simp add: gameLoop_def Let_def case_prod_beta spawned_def scrolled_def pipesAt_def updatePipes_pipes)

lemma gameLoop_score_mono: "score w \<le> score (gameLoop w random)"
proof (cases "gameState w = Playing")
  case True
  have "length (pipes (gameLoop w random)) \<le> length (scrolled w random)"
    by (simp add: gameLoop_pipes [OF True])
  with gameLoop_score [OF True, of random] show ?thesis by linarith
next
  case False
  then show ?thesis by (simp add: gameLoop_not_playing)
qed

lemma gameLoop_highScore_mono: "highScore w \<le> highScore (gameLoop w random)"
  by (cases "gameState w = Playing") (simp_all add: gameLoop_highScore gameLoop_not_playing)

lemma gameLoop_highScore_max:
  "gameState w = Playing \<Longrightarrow>
     highScore (gameLoop w random) =
       (if gameState (gameLoop w random) = GameOver then max (highScore w) (score w) else highScore w)"
  by (simp add: gameLoop_highScore gameLoop_gameState max_def)

subsection \<open>Sessions from the initial world\<close>

lemma replicate_numeral_unfold: "replicate (numeral k) x = x # replicate (pred_numeral k) x"
  by (simp add: numeral_eq_Suc)

lemma run_fatalPrefix:
  "run initialWorld fatalPrefix =
     \<lparr>gameState = Playing, score = 0, highScore = 0,
      player = \<lparr>player_x = 80, player_y = 34 / 5, velocity = - 8, rotation = - (114 / 5)\<rparr>,
      pipes = [], bullets = [\<lparr>bullet_x = 388, bullet_y = 232, active = True\<rparr>],
      frameCount = 149\<rparr>"
  by (simp add: fatalPrefix_def evals replicate_numeral_unfold)

lemma behindPlayer_initial: "behindPlayer initialWorld"
  by (simp add: behindPlayer_def initialWorld_def initialPlayer_def)

lemma behindPlayer_jump: "behindPlayer w \<Longrightarrow> behindPlayer (jump w)"
  by (simp add: behindPlayer_def jump_def resetGame_def)

lemma behindPlayer_shoot: "behindPlayer w \<Longrightarrow> behindPlayer (shoot w)"
  by (auto simp add: behindPlayer_def shoot_def)

lemma agePipe_passed:
  "passed (agePipe p pipe) \<Longrightarrow> (passed pipe \<and> pipe_x (agePipe p pipe) = pipe_x pipe - 2) \<or>
     pipe_x (agePipe p pipe) + 50 < player_x p"
  by (auto simp add: agePipe_def justPassed_def movePipe_def PIPE_SPEED_def Let_def split: if_splits)

lemma spawned_passed: "pipe \<in> set (spawned w random) \<Longrightarrow> passed pipe \<Longrightarrow> pipe \<in> set (pipes w)"
  by (auto simp add: spawned_def spawnPipes_def newPipe_def Let_def split: if_splits)

lemma behindPlayer_gameLoop:
  assumes "behindPlayer w"
  shows "behindPlayer (gameLoop w random)"
proof (cases "gameState w = Playing")
  case False
  with assms show ?thesis by (simp add: gameLoop_not_playing)
next
  case True
  from assms have px: "player_x (player w) = 80"
    and bs: "\<forall>b\<in>set (bullets w). 100 \<le> bullet_x b"
    and ps: "\<forall>pipe\<in>set (pipes w). passed pipe \<longrightarrow> pipe_x pipe + 50 < 80"
    by (simp_all add: behindPlayer_def)
  have px': "player_x (player (gameLoop w random)) = 80"
    using px by (simp add: gameLoop_player [OF True] updatePlayer_def Let_def)
  have bs': "100 \<le> bullet_x b'" if "b' \<in> set (bullets (gameLoop w random))" for b'
  proof -
    from gameLoop_bullets_kept [OF True that] obtain b where "b \<in> set (bullets w)" "b' = moveBullet b"
      by auto
    with bs show ?thesis by (auto simp add: moveBullet_def BULLET_SPEED_def)
  qed
  have ps': "pipe_x pipe' + 50 < 80" if "pipe' \<in> set (pipes (gameLoop w random))" "passed pipe'" for pipe'
  proof -
    from that(1) obtain pipe where sp: "pipe \<in> set (spawned w random)"
      and eq: "pipe' = agePipe (updatePlayer (player w)) pipe"
      by (auto simp add: gameLoop_pipes [OF True] scrolled_def)
    from that(2) eq agePipe_passed [of "updatePlayer (player w)" pipe]
    consider "passed pipe" "pipe_x pipe' = pipe_x pipe - 2"
      | "pipe_x pipe' + 50 < player_x (updatePlayer (player w))"
      by auto
    then show ?thesis
    proof cases
      case 1
      with sp have "pipe \<in> set (pipes w)" by (simp add: spawned_passed)
      with ps 1 show ?thesis by auto
    next
      case 2
      with px show ?thesis by (simp add: updatePlayer_def Let_def)
    qed
  qed
  from px' bs' ps' show ?thesis by (auto simp add: behindPlayer_def)
qed

lemma behindPlayer_step: "behindPlayer w \<Longrightarrow> behindPlayer (step w e)"
  by (cases e) (simp_all add: behindPlayer_gameLoop behindPlayer_jump behindPlayer_shoot)

lemma behindPlayer_run: "behindPlayer w \<Longrightarrow> behindPlayer (run w es)"
  unfolding run_def by (induction es arbitrary: w) (simp_all add: behindPlayer_step)

lemma behindPlayer_no_hit:
  assumes "behindPlayer w" and "b \<in> set (bullets w)" and "pipe \<in> set (pipes w)" and "passed pipe"
  shows "\<not> bulletHitsPipe (moveBullet b) (movePipe pipe)"
proof -
  from assms have "100 \<le> bullet_x b" "pipe_x pipe + 50 < 80"
    by (auto simp add: behindPlayer_def)
  then show ?thesis
    by (simp add: bulletHitsPipe_def checkCollision_def bulletHitbox_def topPipe_def bottomPipe_def
        moveBullet_def movePipe_def BULLET_SPEED_def PIPE_SPEED_def)
qed

text \<open>
  In a session the pipes are 300 apart, so a bullet (10 wide) intersects at most one
  pipe (50 wide) in a tick.
\<close>

lemma spaced_initial: "spaced initialWorld"
  by (simp add: spaced_def spacedPipes_def initialWorld_def)

lemma spaced_jump: "spaced w \<Longrightarrow> spaced (jump w)"
  by (simp add: spaced_def spacedPipes_def jump_def resetGame_def)

lemma spaced_shoot: "spaced w \<Longrightarrow> spaced (shoot w)"
  by (simp add: spaced_def shoot_def)

lemma pipe_x_agePipe: "pipe_x (agePipe p pipe) = pipe_x pipe - 2"
  by (simp add: agePipe_def movePipe_def PIPE_SPEED_def Let_def)

lemma spacedPipes_scrolled:
  assumes "spaced w"
  shows "spacedPipes (scrolled w random)"
proof -
  from assms have old: "sorted_wrt (\<lambda>p q. pipe_x p + 300 \<le> pipe_x q) (pipes w)"
    and bound: "\<forall>pipe\<in>set (pipes w). pipe_x pipe + 2 * of_nat (frameCount w mod 150) \<le> 398"
    by (simp_all add: spaced_def spacedPipes_def)
  have "sorted_wrt (\<lambda>p q. pipe_x p + 300 \<le> pipe_x q) (spawned w random)"
  proof (cases "Suc (frameCount w) mod 150 = 0")
    case False
    with old show ?thesis
      by (simp add: spawned_def spawnPipes_def PIPE_SPAWN_RATE_def)
  next
    case True
    then have "frameCount w mod 150 = 149"
      by (simp add: mod_Suc split: if_splits)
    with bound have "\<forall>pipe\<in>set (pipes w). pipe_x pipe \<le> 100"
      by auto
    with old True show ?thesis
      by (auto simp add: spawned_def spawnPipes_def PIPE_SPAWN_RATE_def newPipe_def GAME_WIDTH_def
          Let_def sorted_wrt_append)
  qed
  moreover have "(\<lambda>p q. pipe_x (agePipe (updatePlayer (player w)) p) + 300
        \<le> pipe_x (agePipe (updatePlayer (player w)) q)) = (\<lambda>p q. pipe_x p + 300 \<le> pipe_x q)"
    by (auto simp add: pipe_x_agePipe fun_eq_iff)
  ultimately have "sorted_wrt (\<lambda>p q. pipe_x p + 300 \<le> pipe_x q)
      (map (agePipe (updatePlayer (player w))) (spawned w random))"
    by (simp only: sorted_wrt_map)
  then show ?thesis
    by (simp add: spacedPipes_def scrolled_def sorted_wrt_filter)
qed

lemma spaced_gameLoop:
  assumes "spaced w"
  shows "spaced (gameLoop w random)"
proof (cases "gameState w = Playing")
  case False
  with assms show ?thesis by (simp add: gameLoop_not_playing)
next
  case True
  from assms have bound: "\<forall>pipe\<in>set (pipes w). pipe_x pipe + 2 * of_nat (frameCount w mod 150) \<le> 398"
    by (simp add: spaced_def)
  have ps: "pipes (gameLoop w random) =
      filter (\<lambda>pipe. \<forall>b\<in>set (bullets w). \<not> bulletHitsPipe (moveBullet b) pipe) (scrolled w random)"
    using True by (rule gameLoop_pipes)
  from spacedPipes_scrolled [OF assms, of random] have one: "spacedPipes (pipes (gameLoop w random))"
    by (simp add: ps spacedPipes_def sorted_wrt_filter)
  have two: "pipe_x pipe' + 2 * of_nat (frameCount (gameLoop w random) mod 150) \<le> 398"
    if "pipe' \<in> set (pipes (gameLoop w random))" for pipe'
  proof -
    from that obtain pipe where sp: "pipe \<in> set (spawned w random)"
      and eq: "pipe_x pipe' = pipe_x pipe - 2"
      by (auto simp add: ps scrolled_def pipe_x_agePipe)
    show ?thesis
    proof (cases "Suc (frameCount w) mod 150 = 0")
      case True
      have "pipe_x pipe \<le> 400"
      proof (cases "pipe \<in> set (pipes w)")
        case True
        with bound have "pipe_x pipe + 2 * of_nat (frameCount w mod 150) \<le> 398" by simp
        moreover have "(0::rat) \<le> 2 * of_nat (frameCount w mod 150)" by simp
        ultimately show ?thesis by linarith
      next
        case False
        with sp show ?thesis
          by (auto simp add: spawned_def spawnPipes_def newPipe_def GAME_WIDTH_def Let_def
              split: if_splits)
      qed
      with True eq show ?thesis
        by (simp add: gameLoop_frameCount [OF \<open>gameState w = Playing\<close>])
    next
      case False
      with sp have "pipe \<in> set (pipes w)"
        by (simp add: spawned_def spawnPipes_def PIPE_SPAWN_RATE_def)
      with bound have b: "pipe_x pipe + 2 * of_nat (frameCount w mod 150) \<le> 398" by simp
      from False have "Suc (frameCount w) mod 150 = Suc (frameCount w mod 150)"
        by (simp add: mod_Suc split: if_splits)
      with b eq show ?thesis
        by (simp add: gameLoop_frameCount [OF \<open>gameState w = Playing\<close>])
    qed
  qed
  from one two show ?thesis by (simp add: spaced_def)
qed

lemma spaced_step: "spaced w \<Longrightarrow> spaced (step w e)"
  by (cases e) (simp_all add: spaced_gameLoop spaced_jump spaced_shoot)

lemma spaced_run: "spaced w \<Longrightarrow> spaced (run w es)"
  unfolding run_def by (induction es arbitrary: w) (simp_all add: spaced_step)

lemma bulletHitsPipe_x:
  "bulletHitsPipe b pipe \<Longrightarrow> bullet_x b - 5 < pipe_x pipe + 50 \<and> pipe_x pipe < bullet_x b + 5"
  by (auto simp add: bulletHitsPipe_def checkCollision_def bulletHitbox_def topPipe_def bottomPipe_def)

lemma spacedPipes_one_hit: "spacedPipes ps \<Longrightarrow> length (filter (bulletHitsPipe b) ps) \<le> 1"
proof (induction ps)
  case Nil
  show ?case by simp
next
  case (Cons pipe rest)
  from Cons.prems have far: "\<forall>q\<in>set rest. pipe_x pipe + 300 \<le> pipe_x q"
    and rest: "spacedPipes rest"
    by (simp_all add: spacedPipes_def)
  show ?case
  proof (cases "bulletHitsPipe b pipe")
    case False
    with Cons.IH [OF rest] show ?thesis by simp
  next
    case True
    have "\<not> bulletHitsPipe b q" if "q \<in> set rest" for q
    proof
      assume "bulletHitsPipe b q"
      then have "pipe_x q < bullet_x b + 5"
        by (simp add: bulletHitsPipe_x)
      moreover from True have "bullet_x b - 5 < pipe_x pipe + 50"
        by (simp add: bulletHitsPipe_x)
      moreover from far that have "pipe_x pipe + 300 \<le> pipe_x q"
        by simp
      ultimately show False by linarith
    qed
    then have "filter (bulletHitsPipe b) rest = []"
      by (simp add: filter_empty_conv)
    with True show ?thesis by simp
  qed
qed

lemma session_one_hit:
  "length (filter (bulletHitsPipe b) (scrolled (run initialWorld es) random)) \<le> 1"
  by (rule spacedPipes_one_hit [OF spacedPipes_scrolled [OF spaced_run [OF spaced_initial]]])

text \<open>
  So in a session the source's bullet step, which removes every pipe a bullet
  intersects, does what the first-hit step does.
\<close>

lemma spacedPipes_filter: "spacedPipes ps \<Longrightarrow> spacedPipes (filter P ps)"
  by (simp add: spacedPipes_def sorted_wrt_filter)

lemma spacedPipes_no_second_hit:
  assumes "spacedPipes (pipe # rest)" and "bulletHitsPipe b pipe" and "q \<in> set rest"
  shows "\<not> bulletHitsPipe b q"
proof
  assume "bulletHitsPipe b q"
  then have "pipe_x q < bullet_x b + 5"
    by (simp add: bulletHitsPipe_x)
  moreover from assms(2) have "bullet_x b - 5 < pipe_x pipe + 50"
    by (simp add: bulletHitsPipe_x)
  moreover from assms(1,3) have "pipe_x pipe + 300 \<le> pipe_x q"
    by (simp add: spacedPipes_def)
  ultimately show False by linarith
qed

lemma spacedPipes_removeFirstHit:
  "spacedPipes ps \<Longrightarrow> filter (\<lambda>pipe. \<not> bulletHitsPipe b pipe) ps = removeFirstHit b ps"
proof (induction ps)
  case Nil
  show ?case by simp
next
  case (Cons pipe rest)
  from Cons.prems have rest: "spacedPipes rest"
    by (simp add: spacedPipes_def)
  show ?case
  proof (cases "bulletHitsPipe b pipe")
    case True
    with Cons.prems have "\<forall>q\<in>set rest. \<not> bulletHitsPipe b q"
      using spacedPipes_no_second_hit by blast
    then have "filter (\<lambda>pipe. \<not> bulletHitsPipe b pipe) rest = rest"
      by (simp add: filter_id_conv)
    with True show ?thesis by simp
  next
    case False
    with Cons.IH [OF rest] show ?thesis by simp
  qed
qed

lemma spacedPipes_hit_count:
  "spacedPipes ps \<Longrightarrow>
     length (filter (bulletHitsPipe b) ps) = (if \<exists>pipe\<in>set ps. bulletHitsPipe b pipe then 1 else 0)"
proof -
  assume sp: "spacedPipes ps"
  show ?thesis
  proof (cases "\<exists>pipe\<in>set ps. bulletHitsPipe b pipe")
    case True
    then have "filter (bulletHitsPipe b) ps \<noteq> []"
      by (simp add: filter_empty_conv)
    then have "0 < length (filter (bulletHitsPipe b) ps)" by simp
    with spacedPipes_one_hit [OF sp, of b] True show ?thesis by (auto simp add: le_Suc_eq)
  next
    case False
    then have "filter (bulletHitsPipe b) ps = []"
      by (simp add: filter_empty_conv)
    with False show ?thesis by simp
  qed
qed

lemma spacedPipes_updateBullet:
  assumes "spacedPipes ps"
  shows "updateBullet b (ps, s) = firstHitBullet b (ps, s)"
proof (cases "\<exists>pipe\<in>set ps. bulletHitsPipe (moveBullet b) pipe")
  case True
  with assms show ?thesis
    by (simp add: updateBullet_eq firstHitBullet_def Let_def spacedPipes_removeFirstHit
        spacedPipes_hit_count)
next
  case False
  then have "filter (\<lambda>pipe. \<not> bulletHitsPipe (moveBullet b) pipe) ps = ps"
    by (simp add: filter_id_conv)
  with False assms show ?thesis
    by (simp add: updateBullet_eq firstHitBullet_def Let_def spacedPipes_hit_count)
qed

lemma spacedPipes_updateBullets:
  "spacedPipes ps \<Longrightarrow> updateBullets bs (ps, s) = firstHitBullets bs (ps, s)"
proof (induction bs arbitrary: ps s)
  case Nil
  show ?case by simp
next
  case (Cons b rest)
  obtain b1 keep ps1 s1 where u: "updateBullet b (ps, s) = ((b1, keep), ps1, s1)"
    by (metis surj_pair)
  with Cons.prems have f: "firstHitBullet b (ps, s) = ((b1, keep), ps1, s1)"
    by (simp add: spacedPipes_updateBullet)
  from u have "ps1 = filter (\<lambda>pipe. \<not> bulletHitsPipe (moveBullet b) pipe) ps"
    using updateBullet_pipes [of b ps s] by simp
  with Cons.prems have "spacedPipes ps1"
    by (simp add: spacedPipes_filter)
  then have "updateBullets rest (ps1, s1) = firstHitBullets rest (ps1, s1)"
    by (rule Cons.IH)
  with u f show ?case by simp
qed

subsection \<open>Rounding\<close>

text \<open>
  With enough steps the exponent search returns the binade of \<open>x\<close>, and the rounding
  to an integer moves by at most one half.
\<close>

lemma exponentOf_bounds:
  "2 powi (- int n) \<le> x \<Longrightarrow> x < 2 powi (int n + 1) \<Longrightarrow>
     2 powi (exponentOf n x) \<le> x \<and> x < 2 powi (exponentOf n x + 1)"
proof (induction n arbitrary: x)
  case 0
  then show ?case by simp
next
  case (Suc n)
  have pos: "(0::rat) < 2 powi k" for k
    by simp
  consider "2 \<le> x" | "x < 1" | "1 \<le> x" "x < 2"
    by linarith
  then show ?case
  proof cases
    case 1
    have "2 powi (- int n) \<le> (1::rat)"
      by (simp add: power_int_minus inverse_le_1_iff one_le_power)
    with 1 have lo: "2 powi (- int n) \<le> x / 2"
      by linarith
    from Suc.prems(2) have hi: "x / 2 < 2 powi (int n + 1)"
      by (simp add: power_int_add)
    from Suc.IH [OF lo hi] 1 show ?thesis
      by (simp add: power_int_add)
  next
    case 2
    have "(2::rat) powi (- int n) = 2 * 2 powi (- int (Suc n))"
      by (simp add: power_int_diff power_int_minus field_simps)
    with Suc.prems(1) have lo: "2 powi (- int n) \<le> x * 2"
      by linarith
    have "(2::rat) \<le> 2 powi (int n + 1)"
      by (simp add: power_int_add one_le_power)
    with 2 have hi: "x * 2 < 2 powi (int n + 1)"
      by linarith
    from Suc.IH [OF lo hi] 2 show ?thesis
      by (simp add: power_int_diff power_int_add)
  next
    case 3
    then show ?thesis by simp
  qed
qed

lemma roundHalfEven_near: "\<bar>of_int (roundHalfEven q) - q\<bar> \<le> 1 / 2"
proof -
  have "of_int \<lfloor>q\<rfloor> \<le> q" "q < of_int \<lfloor>q\<rfloor> + 1"
    by linarith+
  then show ?thesis
    by (auto simp add: roundHalfEven_def Let_def)
qed

lemma exponentOf_numeral:
  "exponentOf (numeral k) x =
     (if 2 \<le> x then exponentOf (pred_numeral k) (x / 2) + 1
      else if x < 1 then exponentOf (pred_numeral k) (x * 2) - 1
      else 0)"
  by (simp add: numeral_eq_Suc)

lemma floor_rat_numeral: "\<lfloor>numeral a / numeral b :: rat\<rfloor> = numeral a div numeral b"
  using floor_divide_of_int_eq [of "numeral a" "numeral b", where ?'a = rat] by simp

lemma floor_rat_minus_numeral: "\<lfloor>- (numeral a / numeral b) :: rat\<rfloor> = - numeral a div numeral b"
  using floor_divide_of_int_eq [of "- numeral a" "numeral b", where ?'a = rat] by simp

lemmas roundDouble_eval = roundDouble_def roundHalfEven_def exponentOf_numeral Let_def
  floor_rat_numeral floor_rat_minus_numeral

lemma updatePipeWith_id: "updatePipeWith (\<lambda>x. x) c p pipe s = updatePipe c p pipe s"
  by (simp add: updatePipeWith_def updatePipe_def movePipeWith_def movePipe_def justPassedWith_def
      justPassed_def playerHitsPipeWith_def playerHitsPipe_def checkCollisionWith_def
      checkCollision_def playerHitboxWith_def playerHitbox_def bottomPipeWith_def bottomPipe_def)

lemma updatePipesWith_id: "updatePipesWith (\<lambda>x. x) c p ps s = updatePipes c p ps s"
  by (induction ps arbitrary: s) (simp_all add: updatePipeWith_id)

lemma bulletHitsPipeWith_id: "bulletHitsPipeWith (\<lambda>x. x) b pipe = bulletHitsPipe b pipe"
  by (simp add: bulletHitsPipeWith_def bulletHitsPipe_def checkCollisionWith_def checkCollision_def
      bulletHitboxWith_def bulletHitbox_def bottomPipeWith_def bottomPipe_def)

lemma hitPipesWith_id: "hitPipesWith (\<lambda>x. x) b ps (hit, s) = hitPipes b ps (hit, s)"
  by (induction ps arbitrary: hit s) (simp_all add: bulletHitsPipeWith_id)

lemma updateBulletWith_id: "updateBulletWith (\<lambda>x. x) b st = updateBullet b st"
  by (cases st) (simp add: updateBulletWith_def updateBullet_def moveBulletWith_def moveBullet_def
      hitPipesWith_id)

lemma updateBulletsWith_id: "updateBulletsWith (\<lambda>x. x) bs st = updateBullets bs st"
  by (induction bs arbitrary: st) (simp_all add: updateBulletWith_id)

lemma gameLoopWith_id: "gameLoopWith (\<lambda>x. x) w random = gameLoop w random"
  by (simp add: gameLoopWith_def gameLoop_def updatePlayerWith_def updatePlayer_def
      outOfBoundsWith_def outOfBounds_def spawnPipesWith_def spawnPipes_def newPipeWith_def
      newPipe_def updatePipesWith_id updateBulletsWith_id)

lemma gameLoopWith_player:
  "gameState w = Playing \<Longrightarrow> player (gameLoopWith fl w random) = updatePlayerWith fl (player w)"
  by (simp add: gameLoopWith_def Let_def case_prod_beta)

lemmas evalsWith = gameLoopWith_def updatePlayerWith_def outOfBoundsWith_def spawnPipesWith_def
  newPipeWith_def updatePipeWith_def movePipeWith_def justPassedWith_def playerHitsPipeWith_def
  bulletHitsPipeWith_def checkCollisionWith_def playerHitboxWith_def bulletHitboxWith_def
  bottomPipeWith_def updateBulletWith_def moveBulletWith_def

section \<open>Player physics\<close>

text \<open>
  Claim C2, as written: in every tick while Playing the velocity becomes the previous
  velocity plus 0.4 and the vertical position becomes the previous position plus the
  \<^emph>\<open>previous\<close> velocity. The source adds gravity first and then adds the velocity it
  has just updated. After \<^verbatim>\<open>jump\<close> from the initial world (position 250, velocity
  \<open>-8\<close>) one tick gives position \<open>242.4\<close>, not \<open>242\<close>, in exact arithmetic and in
  double arithmetic (where \<open>242.4\<close> is the double nearest to it).
\<close>

theorem gameLoop_position_counterexample:
  "gameState (jump initialWorld) = Playing \<and>
   player_y (player (jump initialWorld)) = 250 \<and>
   velocity (player (jump initialWorld)) = - 8 \<and>
   player_y (player (gameLoop (jump initialWorld) 0)) = 1212 / 5 \<and>
   player_y (player (gameLoop (jump initialWorld) 0)) \<noteq>
     player_y (player (jump initialWorld)) + velocity (player (jump initialWorld)) \<and>
   player_y (player (gameLoopWith roundDouble (jump initialWorld) 0)) =
     8528691794332877 / 35184372088832 \<and>
   player_y (player (gameLoopWith roundDouble (jump initialWorld) 0)) \<noteq>
     player_y (player (jump initialWorld)) + velocity (player (jump initialWorld))"
proof -
  have exact: "gameState (jump initialWorld) = Playing \<and>
   player_y (player (jump initialWorld)) = 250 \<and>
   velocity (player (jump initialWorld)) = - 8 \<and>
   player_y (player (gameLoop (jump initialWorld) 0)) = 1212 / 5 \<and>
   player_y (player (gameLoop (jump initialWorld) 0)) \<noteq>
     player_y (player (jump initialWorld)) + velocity (player (jump initialWorld))"
    by (simp add: evals)
  have g: "roundDouble GRAVITY = 3602879701896397 / 9007199254740992"
    by (simp add: GRAVITY_def roundDouble_eval)
  have v: "roundDouble (- 8 + 3602879701896397 / 9007199254740992) =
      - 4278419646001971 / 562949953421312"
    by (simp add: roundDouble_eval)
  have y: "roundDouble (250 + - 4278419646001971 / 562949953421312) =
      8528691794332877 / 35184372088832"
    by (simp add: roundDouble_eval)
  have "player_y (player (gameLoopWith roundDouble (jump initialWorld) 0)) =
      roundDouble (250 + roundDouble (- 8 + roundDouble GRAVITY))"
    by (simp add: gameLoopWith_player updatePlayerWith_def Let_def jump_def initialWorld_def
        initialPlayer_def JUMP_STRENGTH_def)
  also have "\<dots> = 8528691794332877 / 35184372088832"
    unfolding g v by (rule y)
  finally have double: "player_y (player (gameLoopWith roundDouble (jump initialWorld) 0)) =
      8528691794332877 / 35184372088832" .
  with exact show ?thesis by simp
qed


text \<open>
  Claim C2, amended: in every tick while Playing the velocity becomes the sum of the
  previous velocity and the constant 0.4, and the vertical position becomes the sum
  of the previous position and the \<^emph>\<open>new\<close> velocity (a fixed step per tick, no delta
  time), each sum being the double the addition returns. The statement holds for
  every rounding \<open>fl\<close>: for \<open>roundDouble\<close> it is the source's arithmetic, and without
  rounding it reads \<open>v + 0.4\<close> and \<open>y + v + 0.4\<close>. In \<open>roundingWorld\<close> the double tick
  takes the player from \<open>y = 0.7\<close>, \<open>v = -1.1\<close> to \<open>v = -0.7000000000000001\<close> and to a
  \<open>y\<close> just below zero (minus 2 to the power -53), which ends the round.
\<close>

theorem gameLoopWith_gravity:
  assumes "gameState w = Playing"
  shows "velocity (player (gameLoopWith fl w random)) = fl (velocity (player w) + fl (4 / 10)) \<and>
    player_y (player (gameLoopWith fl w random)) =
      fl (player_y (player w) + velocity (player (gameLoopWith fl w random)))"
  using assms by (simp add: gameLoopWith_player updatePlayerWith_def GRAVITY_def Let_def)

theorem gameLoopWith_gravity_witness:
  "gameState roundingWorld = Playing \<and>
   velocity (player (gameLoopWith roundDouble roundingWorld 0)) =
     - 6305039478318695 / 9007199254740992 \<and>
   player_y (player (gameLoopWith roundDouble roundingWorld 0)) = - 1 / 9007199254740992 \<and>
   gameState (gameLoopWith roundDouble roundingWorld 0) = GameOver"
proof -
  have playing: "gameState roundingWorld = Playing"
    by (simp add: roundingWorld_def)
  have g: "roundDouble (4 / 10) = 3602879701896397 / 9007199254740992"
    by (simp add: roundDouble_eval)
  have v: "roundDouble (velocity (player roundingWorld) + 3602879701896397 / 9007199254740992) =
      - 6305039478318695 / 9007199254740992"
    by (simp add: roundingWorld_def roundDouble_eval)
  have y: "roundDouble (player_y (player roundingWorld) + - 6305039478318695 / 9007199254740992) =
      - 1 / 9007199254740992"
    by (simp add: roundingWorld_def roundDouble_eval)
  note t = gameLoopWith_gravity [OF playing, of roundDouble 0]
  from t have "velocity (player (gameLoopWith roundDouble roundingWorld 0)) =
      roundDouble (velocity (player roundingWorld) + roundDouble (4 / 10))"
    by (rule conjunct1)
  also have "\<dots> = - 6305039478318695 / 9007199254740992"
    unfolding g by (rule v)
  finally have vel: "velocity (player (gameLoopWith roundDouble roundingWorld 0)) =
      - 6305039478318695 / 9007199254740992" .
  from t have "player_y (player (gameLoopWith roundDouble roundingWorld 0)) =
      roundDouble (player_y (player roundingWorld) + velocity (player (gameLoopWith roundDouble roundingWorld 0)))"
    by (rule conjunct2)
  also have "\<dots> = - 1 / 9007199254740992"
    unfolding vel by (rule y)
  finally have pos: "player_y (player (gameLoopWith roundDouble roundingWorld 0)) =
      - 1 / 9007199254740992" .
  from vel pos
  have vy: "velocity (player (gameLoopWith roundDouble roundingWorld 0)) =
      - 6305039478318695 / 9007199254740992 \<and>
    player_y (player (gameLoopWith roundDouble roundingWorld 0)) = - 1 / 9007199254740992"
    by (rule conjI)
  from pos have "outOfBoundsWith roundDouble (updatePlayerWith roundDouble (player roundingWorld))"
    by (simp add: gameLoopWith_player [OF playing] outOfBoundsWith_def)
  then have "gameState (gameLoopWith roundDouble roundingWorld 0) = GameOver"
    by (simp add: gameLoopWith_def Let_def roundingWorld_def spawnPipesWith_def PIPE_SPAWN_RATE_def)
  with playing vy show ?thesis by simp
qed


text \<open>
  Claim C9: the floor and ceiling check is strict. A tick while Playing ends in
  GameOver exactly when the new vertical position is above 560, below 0, or the player
  hits a pipe; a position of exactly 560 or exactly 0 with no pipe hit leaves the phase
  Playing.
\<close>

theorem gameLoop_bounds_strict:
  assumes "gameState w = Playing"
  shows "(gameState (gameLoop w random) = GameOver) =
      (560 < player_y (player (gameLoop w random)) \<or> player_y (player (gameLoop w random)) < 0 \<or>
       (\<exists>pipe\<in>set (spawned w random). playerHitsPipe (player (gameLoop w random)) (movePipe pipe))) \<and>
    ((player_y (player (gameLoop w random)) = 560 \<or> player_y (player (gameLoop w random)) = 0) \<and>
     (\<forall>pipe\<in>set (spawned w random). \<not> playerHitsPipe (player (gameLoop w random)) (movePipe pipe))
       \<longrightarrow> gameState (gameLoop w random) = Playing)"
  using assms
  by (auto simp add: gameLoop_gameState gameLoop_player outOfBounds_def GAME_HEIGHT_def)

theorem gameLoop_bounds_strict_witness:
  "gameState floorWorld = Playing \<and> player_y (player (gameLoop floorWorld 0)) = 560 \<and>
   gameState (gameLoop floorWorld 0) = Playing \<and>
   gameState ceilingWorld = Playing \<and> player_y (player (gameLoop ceilingWorld 0)) = 0 \<and>
   gameState (gameLoop ceilingWorld 0) = Playing"
proof -
  have f: "gameState floorWorld = Playing" and c: "gameState ceilingWorld = Playing"
    by (simp_all add: floorWorld_def ceilingWorld_def)
  have fy: "player_y (player (gameLoop floorWorld 0)) = 560"
    using gameLoop_player [OF f, of 0]
    by (simp add: updatePlayer_def GRAVITY_def Let_def floorWorld_def)
  have cy: "player_y (player (gameLoop ceilingWorld 0)) = 0"
    using gameLoop_player [OF c, of 0]
    by (simp add: updatePlayer_def GRAVITY_def Let_def ceilingWorld_def)
  have fs: "spawned floorWorld 0 = []" and cs: "spawned ceilingWorld 0 = []"
    by (simp_all add: spawned_def spawnPipes_def PIPE_SPAWN_RATE_def floorWorld_def ceilingWorld_def)
  from gameLoop_bounds_strict [OF f, of 0] fy fs
  have "gameState (gameLoop floorWorld 0) = Playing" by simp
  moreover from gameLoop_bounds_strict [OF c, of 0] cy cs
  have "gameState (gameLoop ceilingWorld 0) = Playing" by simp
  ultimately show ?thesis using f c fy cy by simp
qed

section \<open>Spawning\<close>

text \<open>
  Claim C8: a tick while Playing adds one to the frame counter; when the new counter is
  a multiple of 150 the spawn step appends exactly one pipe with \<open>x = 400\<close>, gap 120,
  \<open>passed = False\<close> and a top height \<open>random * 350 + 50\<close>, which lies in \<open>[50, 400]\<close>
  for a draw \<open>random\<close> in \<open>[0, 1)\<close>; otherwise the spawn step appends nothing. The
  pipes of the tick's result are the spawn step's pipes after the two filters (so the
  new pipe has already moved to 398 when the tick ends).
\<close>

theorem gameLoop_spawn:
  assumes "gameState w = Playing" and "0 \<le> random" and "random < 1"
  shows "frameCount (gameLoop w random) = frameCount w + 1 \<and>
    (if frameCount (gameLoop w random) mod 150 = 0
     then spawned w random =
            pipes w @ [\<lparr>pipe_x = 400, topHeight = random * 350 + 50, gap = 120, passed = False\<rparr>] \<and>
          50 \<le> random * 350 + 50 \<and> random * 350 + 50 \<le> 400
     else spawned w random = pipes w) \<and>
    pipes (gameLoop w random) =
      filter (\<lambda>pipe. \<forall>b\<in>set (bullets w). \<not> bulletHitsPipe (moveBullet b) pipe)
        (filter (\<lambda>pipe. - 60 < pipe_x pipe)
          (map (agePipe (player (gameLoop w random))) (spawned w random)))"
proof -
  from assms(1) have fc: "frameCount (gameLoop w random) = frameCount w + 1"
    by (rule gameLoop_frameCount)
  have sp: "spawned w random =
      (if (frameCount w + 1) mod 150 = 0
       then pipes w @ [\<lparr>pipe_x = 400, topHeight = random * 350 + 50, gap = 120, passed = False\<rparr>]
       else pipes w)"
    by (simp add: spawned_def spawnPipes_def newPipe_def constants Let_def)
  from assms(2,3) have range: "50 \<le> random * 350 + 50 \<and> random * 350 + 50 \<le> 400"
    by simp
  from assms(1) have ps: "pipes (gameLoop w random) =
      filter (\<lambda>pipe. \<forall>b\<in>set (bullets w). \<not> bulletHitsPipe (moveBullet b) pipe)
        (filter (\<lambda>pipe. - 60 < pipe_x pipe)
          (map (agePipe (player (gameLoop w random))) (spawned w random)))"
    by (simp add: gameLoop_pipes gameLoop_player scrolled_def)
  from fc sp range ps show ?thesis by simp
qed

theorem gameLoop_spawn_witness:
  "gameState spawnWorld = Playing \<and> frameCount spawnWorld = 149 \<and>
   frameCount (gameLoop spawnWorld (1 / 2)) = 150 \<and>
   spawned spawnWorld (1 / 2) = [\<lparr>pipe_x = 400, topHeight = 225, gap = 120, passed = False\<rparr>] \<and>
   pipes (gameLoop spawnWorld (1 / 2)) = [\<lparr>pipe_x = 398, topHeight = 225, gap = 120, passed = False\<rparr>] \<and>
   frameCount (gameLoop (gameLoop spawnWorld (1 / 2)) (1 / 2)) = 151 \<and>
   spawned (gameLoop spawnWorld (1 / 2)) (1 / 2) = pipes (gameLoop spawnWorld (1 / 2))"
proof -
  have playing: "gameState spawnWorld = Playing" and fc: "frameCount spawnWorld = 149"
    and ps: "pipes spawnWorld = []" and bs: "bullets spawnWorld = []"
    and px: "player_x (player spawnWorld) = 80"
    by (simp_all add: spawnWorld_def)
  have playing2: "gameState (gameLoop spawnWorld (1 / 2)) = Playing"
    by (simp add: spawnWorld_def evals)
  note first = gameLoop_spawn [OF playing, of "1 / 2"]
  note second = gameLoop_spawn [OF playing2, of "1 / 2"]
  have pl: "player_x (player (gameLoop spawnWorld (1 / 2))) = 80"
    using gameLoop_player [OF playing, of "1 / 2"]
    by (simp add: updatePlayer_def Let_def px)
  from first fc ps bs pl have one: "frameCount (gameLoop spawnWorld (1 / 2)) = 150 \<and>
   spawned spawnWorld (1 / 2) = [\<lparr>pipe_x = 400, topHeight = 225, gap = 120, passed = False\<rparr>] \<and>
   pipes (gameLoop spawnWorld (1 / 2)) = [\<lparr>pipe_x = 398, topHeight = 225, gap = 120, passed = False\<rparr>]"
    by (simp add: agePipe_def movePipe_def justPassed_def PIPE_SPEED_def Let_def)
  with second have two: "frameCount (gameLoop (gameLoop spawnWorld (1 / 2)) (1 / 2)) = 151 \<and>
   spawned (gameLoop spawnWorld (1 / 2)) (1 / 2) = pipes (gameLoop spawnWorld (1 / 2))"
    by simp
  from playing fc one two show ?thesis by simp
qed

section \<open>Restart\<close>

text \<open>
  Claim C6: \<^verbatim>\<open>jump\<close> while the phase is GameOver sets the phase to Start, puts the
  player back to \<open>x = 80\<close>, \<open>y = 250\<close>, velocity 0, rotation 0, empties the pipe and
  bullet arrays, zeroes the frame counter and the score, and leaves the high score as
  it was.
\<close>

theorem jump_gameOver_resets:
  assumes "gameState w = GameOver"
  shows "gameState (jump w) = Start \<and>
    player (jump w) = \<lparr>player_x = 80, player_y = 250, velocity = 0, rotation = 0\<rparr> \<and>
    pipes (jump w) = [] \<and> bullets (jump w) = [] \<and> frameCount (jump w) = 0 \<and>
    score (jump w) = 0 \<and> highScore (jump w) = highScore w"
  using assms by (simp add: jump_def resetGame_def)

theorem jump_gameOver_resets_witness:
  "gameState overWorld = GameOver \<and> score overWorld = 3 \<and>
   jump overWorld = \<lparr>gameState = Start, score = 0, highScore = 7,
     player = \<lparr>player_x = 80, player_y = 250, velocity = 0, rotation = 0\<rparr>,
     pipes = [], bullets = [], frameCount = 0\<rparr>"
proof -
  have over: "gameState overWorld = GameOver"
    by (simp add: overWorld_def)
  have "highScore overWorld = 7" "score overWorld = 3"
    by (simp_all add: overWorld_def)
  with over jump_gameOver_resets [OF over] show ?thesis
    by (cases "jump overWorld") simp
qed

section \<open>Collisions of the player with pipes\<close>

text \<open>
  Claim C1, as written: when the player's hitbox intersects a pipe's top or bottom
  segment the phase becomes GameOver and the first detected collision ends all further
  collision checks of that tick. The source has no early exit: in \<open>crashWorld\<close> the
  player hits the first pipe, and in the same tick the bullet is still tested against
  the second pipe, destroys it and scores two points.
\<close>

theorem gameLoop_no_short_circuit_counterexample:
  "gameState crashWorld = Playing \<and>
   playerHitsPipe (player (gameLoop crashWorld 0)) (movePipe (pipes crashWorld ! 0)) \<and>
   gameState (gameLoop crashWorld 0) = GameOver \<and>
   pipes (gameLoop crashWorld 0) = [\<lparr>pipe_x = 88, topHeight = 200, gap = 120, passed = False\<rparr>] \<and>
   bullets (gameLoop crashWorld 0) = [] \<and>
   score (gameLoop crashWorld 0) = score crashWorld + 2"
  by (simp add: crashWorld_def evals)

text \<open>
  Claim C1, amended: in a tick while Playing, if after the positions are advanced the
  player's hitbox (30 by 30, centred on the player's position) intersects the top or
  bottom segment of some pipe, the phase is GameOver when the tick ends and later
  ticks change nothing; the tick itself still runs in full: the remaining pipes are
  moved, scored and filtered and the bullets are tested against the pipes as in any
  other tick.
\<close>

theorem gameLoop_pipe_collision:
  assumes "gameState w = Playing" and "pipe \<in> set (spawned w random)"
    and "checkCollision (playerHitbox (player (gameLoop w random))) (topPipe (movePipe pipe)) \<or>
         checkCollision (playerHitbox (player (gameLoop w random))) (bottomPipe (movePipe pipe))"
  shows "gameState (gameLoop w random) = GameOver \<and>
    gameLoop (gameLoop w random) random' = gameLoop w random \<and>
    pipes (gameLoop w random) =
      filter (\<lambda>pipe. \<forall>b\<in>set (bullets w). \<not> bulletHitsPipe (moveBullet b) pipe) (scrolled w random) \<and>
    score (gameLoop w random) + 2 * length (pipes (gameLoop w random)) =
      score w
      + length (filter (\<lambda>pipe. justPassed (player (gameLoop w random)) (movePipe pipe)) (spawned w random))
      + 2 * length (scrolled w random)"
proof -
  from assms(1) have pl: "player (gameLoop w random) = updatePlayer (player w)"
    by (rule gameLoop_player)
  from assms(3) have "playerHitsPipe (updatePlayer (player w)) (movePipe pipe)"
    by (simp add: playerHitsPipe_def pl)
  with assms(1,2) have over: "gameState (gameLoop w random) = GameOver"
    by (auto simp add: gameLoop_gameState)
  then have "gameLoop (gameLoop w random) random' = gameLoop w random"
    by (simp add: gameLoop_not_playing)
  with over gameLoop_pipes [OF assms(1), of random] gameLoop_score [OF assms(1), of random]
  show ?thesis by (simp add: pl)
qed

theorem gameLoop_pipe_collision_witness:
  "gameState crashWorld = Playing \<and>
   gameState (gameLoop crashWorld 0) = GameOver \<and>
   gameLoop (gameLoop crashWorld 0) 0 = gameLoop crashWorld 0 \<and>
   score (gameLoop crashWorld 0) + 2 * length (pipes (gameLoop crashWorld 0)) = 4"
proof -
  have playing: "gameState crashWorld = Playing"
    by (simp add: crashWorld_def)
  have first: "\<lparr>pipe_x = 90, topHeight = 200, gap = 120, passed = False\<rparr> \<in> set (spawned crashWorld 0)"
    by (simp add: crashWorld_def spawned_def spawnPipes_def PIPE_SPAWN_RATE_def)
  have hit: "checkCollision (playerHitbox (player (gameLoop crashWorld 0)))
        (topPipe (movePipe \<lparr>pipe_x = 90, topHeight = 200, gap = 120, passed = False\<rparr>)) \<or>
      checkCollision (playerHitbox (player (gameLoop crashWorld 0)))
        (bottomPipe (movePipe \<lparr>pipe_x = 90, topHeight = 200, gap = 120, passed = False\<rparr>))"
    by (simp add: crashWorld_def evals)
  have sp: "spawned crashWorld 0 = pipes crashWorld"
    by (simp add: crashWorld_def spawned_def spawnPipes_def PIPE_SPAWN_RATE_def)
  have sc: "length (scrolled crashWorld 0) = 2" "score crashWorld = 0"
    "filter (\<lambda>pipe. justPassed (player (gameLoop crashWorld 0)) (movePipe pipe)) (pipes crashWorld) = []"
    by (simp_all add: crashWorld_def evals)
  note r = gameLoop_pipe_collision [OF playing first hit, of 0]
  from r have over: "gameState (gameLoop crashWorld 0) = GameOver"
    and still: "gameLoop (gameLoop crashWorld 0) 0 = gameLoop crashWorld 0"
    by blast+
  from r have "score (gameLoop crashWorld 0) + 2 * length (pipes (gameLoop crashWorld 0)) =
      score crashWorld
      + length (filter (\<lambda>pipe. justPassed (player (gameLoop crashWorld 0)) (movePipe pipe))
          (spawned crashWorld 0))
      + 2 * length (scrolled crashWorld 0)"
    by blast
  with sp sc have "score (gameLoop crashWorld 0) + 2 * length (pipes (gameLoop crashWorld 0)) = 4"
    by simp
  with playing over still show ?thesis by simp
qed

section \<open>Scoring\<close>

text \<open>
  Claim C4: the pipe callback sets \<^verbatim>\<open>passed\<close> and queues one point exactly when the
  flag was false and the right edge \<open>x + 50\<close> of the moved pipe is strictly left of the
  player's \<open>x\<close>. A flag that is set stays set and scores nothing more: over a whole
  tick every pipe of the result is the callback's image of a pipe of the spawn step,
  the score grows by one per flag newly set (and by two per pipe the bullets remove),
  and neither \<^verbatim>\<open>shoot\<close> nor \<^verbatim>\<open>jump\<close> touches a flag (\<^verbatim>\<open>jump\<close> in phase
  GameOver empties the array).
\<close>

theorem updatePipe_pass_scoring:
  "passed (fst (fst (updatePipe c p pipe s))) = (passed pipe \<or> pipe_x pipe - 2 + 50 < player_x p) \<and>
   score (snd (updatePipe c p pipe s)) =
     score s + (if \<not> passed pipe \<and> pipe_x pipe - 2 + 50 < player_x p then 1 else 0) \<and>
   (gameState w = Playing \<longrightarrow>
      set (pipes (gameLoop w random)) \<subseteq> agePipe (player (gameLoop w random)) ` set (spawned w random) \<and>
      score (gameLoop w random) + 2 * length (pipes (gameLoop w random)) =
        score w
        + length (filter (\<lambda>pipe. \<not> passed pipe \<and> pipe_x pipe - 2 + 50 < player_x (player w))
            (spawned w random))
        + 2 * length (scrolled w random)) \<and>
   pipes (shoot w) = pipes w \<and>
   pipes (jump w) = (if gameState w = GameOver then [] else pipes w)"
proof -
  have one: "passed (fst (fst (updatePipe c p pipe s))) = (passed pipe \<or> pipe_x pipe - 2 + 50 < player_x p)"
    by (simp add: updatePipe_def justPassed_def movePipe_def PIPE_SPEED_def Let_def)
  have two: "score (snd (updatePipe c p pipe s)) =
     score s + (if \<not> passed pipe \<and> pipe_x pipe - 2 + 50 < player_x p then 1 else 0)"
    by (simp add: updatePipe_def justPassed_def movePipe_def PIPE_SPEED_def Let_def)
  have three: "set (pipes (gameLoop w random)) \<subseteq> agePipe (player (gameLoop w random)) ` set (spawned w random)"
    if "gameState w = Playing"
    using that by (auto simp add: gameLoop_pipes gameLoop_player scrolled_def)
  have px: "player_x (updatePlayer (player w)) = player_x (player w)"
    by (simp add: updatePlayer_def Let_def)
  have four: "score (gameLoop w random) + 2 * length (pipes (gameLoop w random)) =
        score w
        + length (filter (\<lambda>pipe. \<not> passed pipe \<and> pipe_x pipe - 2 + 50 < player_x (player w))
            (spawned w random))
        + 2 * length (scrolled w random)"
    if "gameState w = Playing"
    using gameLoop_score [OF that, of random]
    by (simp add: justPassed_def movePipe_def PIPE_SPEED_def px)
  have five: "pipes (shoot w) = pipes w"
    by (simp add: shoot_def)
  have six: "pipes (jump w) = (if gameState w = GameOver then [] else pipes w)"
    by (simp add: jump_def resetGame_def)
  from one two three four five six show ?thesis by blast
qed

theorem updatePipe_pass_scoring_witness:
  "passed (fst (fst (updatePipe passWorld (player passWorld) (hd (pipes passWorld)) passWorld))) \<and>
   score (snd (updatePipe passWorld (player passWorld) (hd (pipes passWorld)) passWorld)) = 1 \<and>
   pipes (gameLoop passWorld 0) = [\<lparr>pipe_x = 28, topHeight = 200, gap = 120, passed = True\<rparr>] \<and>
   score (gameLoop passWorld 0) = 1 \<and>
   pipes (gameLoop (gameLoop passWorld 0) 0) = [\<lparr>pipe_x = 26, topHeight = 200, gap = 120, passed = True\<rparr>] \<and>
   score (gameLoop (gameLoop passWorld 0) 0) = 1"
  using updatePipe_pass_scoring [of passWorld "player passWorld" "hd (pipes passWorld)" passWorld passWorld 0]
  by (simp add: passWorld_def evals)

text \<open>
  Claim C3: in every session from the initial world, for every draw, the tick is the
  tick with the first-hit bullet step: each bullet that, once moved, intersects a
  pipe's top or bottom segment removes the first pipe it intersects in array order
  and no other, is removed itself, and adds two points, which is more than the
  single point of a pass. (The source's inner filter would remove every pipe a bullet
  intersects; in a session the pipes are 300 apart and a bullet intersects at most
  one, so the two agree.)
\<close>

theorem session_first_hit:
  "gameLoop (run initialWorld es) random = gameLoopFirstHit (run initialWorld es) random \<and>
   length (filter (bulletHitsPipe b) (scrolled (run initialWorld es) random)) \<le> 1 \<and>
   score (snd (updatePipe c p pipe s)) \<le> score s + 1"
proof -
  let ?w = "run initialWorld es"
  let ?p = "updatePlayer (player ?w)"
  let ?s1 = "if outOfBounds ?p then setGameOver ?w ?w else ?w"
  obtain ps2 s2 where up: "updatePipes ?w ?p (spawned ?w random) ?s1 = (ps2, s2)"
    by (metis surj_pair)
  then have "ps2 = scrolled ?w random"
    using updatePipes_pipes [of ?w ?p "spawned ?w random" ?s1] by (simp add: scrolled_def)
  then have "spacedPipes ps2"
    using spacedPipes_scrolled [OF spaced_run [OF spaced_initial], of es random] by simp
  then have "updateBullets (bullets ?w) (ps2, s2) = firstHitBullets (bullets ?w) (ps2, s2)"
    by (rule spacedPipes_updateBullets)
  with up have "gameLoop ?w random = gameLoopFirstHit ?w random"
    by (simp add: gameLoop_def gameLoopFirstHit_def Let_def spawned_def)
  moreover have "score (snd (updatePipe c p pipe s)) \<le> score s + 1"
    by (simp add: updatePipe_score)
  moreover have "length (filter (bulletHitsPipe b) (scrolled (run initialWorld es) random)) \<le> 1"
    by (rule spacedPipes_one_hit [OF spacedPipes_scrolled [OF spaced_run [OF spaced_initial]]])
  ultimately show ?thesis by simp
qed

theorem session_first_hit_witness:
  "gameLoopFirstHit (run initialWorld fatalPrefix) (9 / 10) =
     gameLoop (run initialWorld fatalPrefix) (9 / 10) \<and>
   bullets (run initialWorld fatalPrefix) = [\<lparr>bullet_x = 388, bullet_y = 232, active = True\<rparr>] \<and>
   scrolled (run initialWorld fatalPrefix) (9 / 10) =
     [\<lparr>pipe_x = 398, topHeight = 365, gap = 120, passed = False\<rparr>] \<and>
   pipes (gameLoopFirstHit (run initialWorld fatalPrefix) (9 / 10)) = [] \<and>
   bullets (gameLoopFirstHit (run initialWorld fatalPrefix) (9 / 10)) = [] \<and>
   score (gameLoopFirstHit (run initialWorld fatalPrefix) (9 / 10)) =
     score (run initialWorld fatalPrefix) + 2"
proof -
  have "pipes (gameLoop (run initialWorld fatalPrefix) (9 / 10)) = [] \<and>
    bullets (gameLoop (run initialWorld fatalPrefix) (9 / 10)) = [] \<and>
    score (gameLoop (run initialWorld fatalPrefix) (9 / 10)) = score (run initialWorld fatalPrefix) + 2 \<and>
    bullets (run initialWorld fatalPrefix) = [\<lparr>bullet_x = 388, bullet_y = 232, active = True\<rparr>] \<and>
    scrolled (run initialWorld fatalPrefix) (9 / 10) =
      [\<lparr>pipe_x = 398, topHeight = 365, gap = 120, passed = False\<rparr>]"
    by (simp add: run_fatalPrefix) (simp add: evals)
  with session_first_hit [of fatalPrefix "9 / 10"] show ?thesis by simp
qed


text \<open>
  Claim C10, as written: a pipe whose \<^verbatim>\<open>passed\<close> flag is set can still be destroyed
  by a bullet, so that one pipe yields three points. In no session from the initial
  world does a bullet intersect a pipe whose flag is set (before or during the tick):
  bullets start at \<open>x = 100\<close> and move right, and a pipe with the flag set lies left of
  \<open>x = 80\<close>.
\<close>

theorem session_passed_pipe_counterexample:
  "\<not> (\<exists>es random b pipe.
        b \<in> set (bullets (run initialWorld es)) \<and>
        pipe \<in> set (scrolled (run initialWorld es) random) \<and> passed pipe \<and>
        bulletHitsPipe (moveBullet b) pipe)"
proof
  assume "\<exists>es random b pipe.
        b \<in> set (bullets (run initialWorld es)) \<and>
        pipe \<in> set (scrolled (run initialWorld es) random) \<and> passed pipe \<and>
        bulletHitsPipe (moveBullet b) pipe"
  then obtain es random b pipe where b: "b \<in> set (bullets (run initialWorld es))"
    and pipe: "pipe \<in> set (scrolled (run initialWorld es) random)" "passed pipe"
    and hit: "bulletHitsPipe (moveBullet b) pipe"
    by blast
  let ?w = "run initialWorld es"
  have inv: "behindPlayer ?w"
    by (rule behindPlayer_run [OF behindPlayer_initial])
  with b have bx: "100 \<le> bullet_x b"
    by (simp add: behindPlayer_def)
  from pipe(1) obtain old where old: "old \<in> set (spawned ?w random)"
    and eq: "pipe = agePipe (updatePlayer (player ?w)) old"
    by (auto simp add: scrolled_def)
  from pipe(2) eq agePipe_passed [of "updatePlayer (player ?w)" old]
  consider "passed old" "pipe_x pipe = pipe_x old - 2"
    | "pipe_x pipe + 50 < player_x (updatePlayer (player ?w))"
    by auto
  then have "pipe_x pipe + 50 < 80"
  proof cases
    case 1
    with old have "old \<in> set (pipes ?w)" by (simp add: spawned_passed)
    with inv 1 show ?thesis by (auto simp add: behindPlayer_def)
  next
    case 2
    with inv show ?thesis by (simp add: behindPlayer_def updatePlayer_def Let_def)
  qed
  with bx have "\<not> bulletHitsPipe (moveBullet b) pipe"
    by (simp add: bulletHitsPipe_def checkCollision_def bulletHitbox_def topPipe_def bottomPipe_def
        moveBullet_def BULLET_SPEED_def)
  with hit show False by simp
qed

text \<open>
  Claim C10, amended: the bullet code never reads the \<^verbatim>\<open>passed\<close> flag. In a world
  where a bullet, once moved, intersects a moved pipe whose flag is already set (and
  which is still right of \<open>-60\<close>), the tick removes that pipe and adds at least two
  points to the point the pass has given. (No session from the initial world reaches
  such a world.)
\<close>

theorem gameLoop_destroys_passed_pipe:
  assumes "gameState w = Playing" and "pipe \<in> set (pipes w)" and "passed pipe"
    and "- 60 < pipe_x (movePipe pipe)"
    and "b \<in> set (bullets w)" and "bulletHitsPipe (moveBullet b) (movePipe pipe)"
  shows "movePipe pipe \<notin> set (pipes (gameLoop w random)) \<and>
    score w + 2 \<le> score (gameLoop w random)"
proof -
  let ?p = "updatePlayer (player w)"
  from assms(2) have "pipe \<in> set (spawned w random)"
    by (simp add: spawned_def spawnPipes_def)
  moreover from assms(3) have aged: "agePipe ?p pipe = movePipe pipe"
    by (simp add: agePipe_def justPassed_def movePipe_def Let_def)
  ultimately have "movePipe pipe \<in> agePipe ?p ` set (spawned w random)"
    by force
  with assms(4) have mem: "movePipe pipe \<in> set (scrolled w random)"
    by (simp add: scrolled_def)
  have ps: "pipes (gameLoop w random) =
      filter (\<lambda>pipe. \<forall>b\<in>set (bullets w). \<not> bulletHitsPipe (moveBullet b) pipe) (scrolled w random)"
    using assms(1) by (rule gameLoop_pipes)
  from assms(5,6) have gone: "movePipe pipe \<notin> set (pipes (gameLoop w random))"
    by (auto simp add: ps)
  from mem assms(5,6) have "length (pipes (gameLoop w random)) < length (scrolled w random)"
    unfolding ps by (intro length_filter_less) auto
  with gameLoop_score [OF assms(1), of random] have "score w + 2 \<le> score (gameLoop w random)"
    by linarith
  with gone show ?thesis by simp
qed

theorem gameLoop_destroys_passed_pipe_witness:
  "score passedHitWorld = 0 \<and>
   pipes (gameLoop passedHitWorld 0) = [\<lparr>pipe_x = 28, topHeight = 200, gap = 120, passed = True\<rparr>] \<and>
   bullets (gameLoop passedHitWorld 0) = [\<lparr>bullet_x = 18, bullet_y = 100, active = True\<rparr>] \<and>
   score (gameLoop passedHitWorld 0) = 1 \<and>
   gameState (gameLoop passedHitWorld 0) = Playing \<and>
   pipes (gameLoop (gameLoop passedHitWorld 0) 0) = [] \<and>
   score (gameLoop (gameLoop passedHitWorld 0) 0) = 3"
proof -
  have one: "gameLoop passedHitWorld 0 =
     \<lparr>gameState = Playing, score = 1, highScore = 0,
      player = \<lparr>player_x = 80, player_y = 1252 / 5, velocity = 2 / 5, rotation = 6 / 5\<rparr>,
      pipes = [\<lparr>pipe_x = 28, topHeight = 200, gap = 120, passed = True\<rparr>],
      bullets = [\<lparr>bullet_x = 18, bullet_y = 100, active = True\<rparr>], frameCount = 335\<rparr>"
    by (simp add: passedHitWorld_def evals)
  have two: "score (gameLoop (gameLoop passedHitWorld 0) 0) = 3 \<and>
      pipes (gameLoop (gameLoop passedHitWorld 0) 0) = []"
    by (simp add: one) (simp add: evals)
  have "movePipe \<lparr>pipe_x = 28, topHeight = 200, gap = 120, passed = True\<rparr>
          \<notin> set (pipes (gameLoop (gameLoop passedHitWorld 0) 0)) \<and>
        score (gameLoop passedHitWorld 0) + 2 \<le> score (gameLoop (gameLoop passedHitWorld 0) 0)"
    by (rule gameLoop_destroys_passed_pipe
          [where b = "\<lparr>bullet_x = 18, bullet_y = 100, active = True\<rparr>"])
       (simp_all add: one, simp_all add: evals)
  with one two show ?thesis by (simp add: passedHitWorld_def)
qed

text \<open>
  Claim C5 says that the score never decreases during a round, that at the GameOver
  transition the high score becomes the maximum of itself and the current score, and
  that the high score is the best score of the completed rounds. The score and the
  high score never decrease (\<open>gameLoop_score_mono\<close>, \<open>gameLoop_highScore_mono\<close>), but
  the score compared and stored at the transition is the one the tick started with
  (\<open>gameLoop_highScore_max\<close>): points queued in the very tick that ends the round are
  missing from it. In the session below the round ends with score 2 and the high
  score stays 0, also after the restart.
\<close>

theorem session_best_misses_last_points:
  "gameState (run initialWorld fatalPrefix) = Playing \<and>
   score (run initialWorld fatalPrefix) = 0 \<and>
   highScore (run initialWorld fatalPrefix) = 0 \<and>
   gameState (gameLoop (run initialWorld fatalPrefix) (9 / 10)) = GameOver \<and>
   score (gameLoop (run initialWorld fatalPrefix) (9 / 10)) = 2 \<and>
   highScore (gameLoop (run initialWorld fatalPrefix) (9 / 10)) = 0 \<and>
   highScore (jump (gameLoop (run initialWorld fatalPrefix) (9 / 10))) = 0"
  by (simp add: run_fatalPrefix) (simp add: evals)

section \<open>Removal of pipes and bullets\<close>

text \<open>
  Claim C7, as written: a pipe is removed in the tick in which it has scrolled fully
  off-screen to the left. In \<open>offScreenWorld\<close> the pipe moves from \<open>-54\<close> to \<open>-56\<close>,
  which puts even its cap left of the canvas, and it stays in the array for this tick
  and the next; it is removed when it reaches \<open>-60\<close>.
\<close>

theorem gameLoop_keeps_offscreen_pipe_counterexample:
  "gameState offScreenWorld = Playing \<and> bullets offScreenWorld = [] \<and>
   \<not> offScreenLeft (hd (pipes offScreenWorld)) \<and>
   offScreenLeft (movePipe (hd (pipes offScreenWorld))) \<and>
   pipes (gameLoop offScreenWorld 0) = [movePipe (hd (pipes offScreenWorld))] \<and>
   pipes (gameLoop (gameLoop offScreenWorld 0) 0) =
     [\<lparr>pipe_x = - 58, topHeight = 200, gap = 120, passed = True\<rparr>] \<and>
   pipes (gameLoop (gameLoop (gameLoop offScreenWorld 0) 0) 0) = []"
  by (simp add: offScreenWorld_def offScreenLeft_def evals)

text \<open>
  Claim C7, amended: after a tick while Playing the pipe array holds exactly the pipes
  of the spawn step, moved, whose \<open>x\<close> is greater than \<open>-60\<close> and which no moved
  bullet intersects; the bullet array holds exactly the moved bullets, in order, that
  have \<open>x < 400\<close> and intersect no pipe still in the array at their turn (a pipe is
  still there when no earlier bullet has intersected it). So a bullet that leaves
  the field or hits a pipe is gone when the tick ends, every bullet left is inside
  the field and intersects none of the pipes left, and every pipe left is right of
  \<open>-60\<close>.
\<close>

theorem gameLoop_removals:
  assumes "gameState w = Playing"
  shows "pipes (gameLoop w random) =
      filter (\<lambda>pipe. \<forall>b\<in>set (bullets w). \<not> bulletHitsPipe (moveBullet b) pipe)
        (filter (\<lambda>pipe. - 60 < pipe_x pipe)
          (map (agePipe (player (gameLoop w random))) (spawned w random))) \<and>
    bullets (gameLoop w random) =
      map (\<lambda>i. moveBullet (bullets w ! i))
        (filter (\<lambda>i. bullet_x (moveBullet (bullets w ! i)) < 400 \<and>
            (\<forall>pipe\<in>set (pipesAt w random i). \<not> bulletHitsPipe (moveBullet (bullets w ! i)) pipe))
          [0..<length (bullets w)]) \<and>
    (\<forall>b'\<in>set (bullets (gameLoop w random)).
       b' \<in> moveBullet ` set (bullets w) \<and> bullet_x b' < 400 \<and>
       (\<forall>pipe\<in>set (pipes (gameLoop w random)). \<not> bulletHitsPipe b' pipe)) \<and>
    (\<forall>b\<in>set (bullets w).
       bullet_x (moveBullet b) < 400 \<and>
       (\<forall>pipe\<in>set (scrolled w random). \<not> bulletHitsPipe (moveBullet b) pipe) \<longrightarrow>
       moveBullet b \<in> set (bullets (gameLoop w random))) \<and>
    (\<forall>pipe\<in>set (pipes (gameLoop w random)). - 60 < pipe_x pipe) \<and>
    snd (fst (updateBullet b (ps, s))) =
      (bullet_x (moveBullet b) < 400 \<and> (\<forall>pipe\<in>set ps. \<not> bulletHitsPipe (moveBullet b) pipe))"
proof -
  have a: "pipes (gameLoop w random) =
      filter (\<lambda>pipe. \<forall>b\<in>set (bullets w). \<not> bulletHitsPipe (moveBullet b) pipe)
        (filter (\<lambda>pipe. - 60 < pipe_x pipe)
          (map (agePipe (player (gameLoop w random))) (spawned w random)))"
    using assms by (simp add: gameLoop_pipes gameLoop_player scrolled_def)
  have x: "bullets (gameLoop w random) =
      map (\<lambda>i. moveBullet (bullets w ! i))
        (filter (\<lambda>i. bullet_x (moveBullet (bullets w ! i)) < 400 \<and>
            (\<forall>pipe\<in>set (pipesAt w random i). \<not> bulletHitsPipe (moveBullet (bullets w ! i)) pipe))
          [0..<length (bullets w)])"
    using gameLoop_bullets [OF assms, of random] by (simp add: GAME_WIDTH_def)
  have b: "\<forall>b'\<in>set (bullets (gameLoop w random)).
       b' \<in> moveBullet ` set (bullets w) \<and> bullet_x b' < 400 \<and>
       (\<forall>pipe\<in>set (pipes (gameLoop w random)). \<not> bulletHitsPipe b' pipe)"
    using gameLoop_bullets_kept [OF assms, of _ random] by (simp add: GAME_WIDTH_def)
  have c: "\<forall>b\<in>set (bullets w).
       bullet_x (moveBullet b) < 400 \<and>
       (\<forall>pipe\<in>set (scrolled w random). \<not> bulletHitsPipe (moveBullet b) pipe) \<longrightarrow>
       moveBullet b \<in> set (bullets (gameLoop w random))"
    using gameLoop_bullets_stay [OF assms, of _ random] by (simp add: GAME_WIDTH_def)
  from a have d: "\<forall>pipe\<in>set (pipes (gameLoop w random)). - 60 < pipe_x pipe"
    by simp
  have e: "snd (fst (updateBullet b (ps, s))) =
      (bullet_x (moveBullet b) < 400 \<and> (\<forall>pipe\<in>set ps. \<not> bulletHitsPipe (moveBullet b) pipe))"
    by (simp add: updateBullet_keep GAME_WIDTH_def)
  from a x b c d e show ?thesis by blast
qed

theorem gameLoop_removals_witness:
  "gameState removalWorld = Playing \<and>
   pipes (gameLoop removalWorld 0) = [] \<and>
   bullets (gameLoop removalWorld 0) = [\<lparr>bullet_x = 116, bullet_y = 250, active = True\<rparr>] \<and>
   score (gameLoop removalWorld 0) = 3"
  using gameLoop_removals [of removalWorld 0 "hd (bullets removalWorld)" "pipes removalWorld" removalWorld]
  by (simp add: removalWorld_def evals)

end
